theory Spec2Isabelle
  imports Complex_Main "HOL-Library.Sublist" "HOL-Library.Log_Nat"
begin

section \<open>Data model\<close>

text \<open>
  The storefront keeps its data in a hosted relational store (tables declared in
  \<^verbatim>\<open>supabase/migrations/20250904111001_square_thunder.sql\<close>) and reads it through
  thin service calls (\<^verbatim>\<open>services/*.ts\<close>, \<^verbatim>\<open>contexts/CartContext.tsx\<close>).

  Modelling decisions, fixed here once:
  \<^item> a \<^verbatim>\<open>uuid\<close> is a natural number; \<^verbatim>\<open>gen_random_uuid()\<close> is a counter of the store;
  \<^item> a value of a column is exact: a rational for \<^verbatim>\<open>decimal(10,2)\<close>, an integer for
    \<^verbatim>\<open>integer\<close>; the columns' own types are applied when a row is written;
  \<^item> a JavaScript \<^verbatim>\<open>number\<close> is an IEEE 754 double: the totals the cart provider
    computes and hands to the pages are computed in doubles (section
    ``JavaScript numbers''). The total \<^verbatim>\<open>createOrder\<close> computes is only ever written to a
    \<^verbatim>\<open>decimal(10,2)\<close> column, which rounds it to two places: \<^verbatim>\<open>createOrder\<close> hands the
    exact sum to the store, and the sum in doubles (\<open>reduce_total_js\<close>) is proved to be
    stored as that same value;
  \<^item> the columns \<^verbatim>\<open>created_at\<close> of the tables written by the application are left
    out: no modelled operation reads them;
  \<^item> a request to the store may fail in transit; the world carries the schedule of
    such failures, one flag per request still to come (no flag left: no failure);
  \<^item> \<^verbatim>\<open>console.error\<close> appends its first argument to a log.
\<close>

type_synonym uuid = nat
type_synonym number = rat

record product =
  pr_id :: uuid
  pr_name :: string
  pr_description :: string
  pr_price :: number
  pr_category_id :: uuid
  pr_stock_quantity :: int
  pr_is_active :: bool
  pr_created_at :: nat

text \<open>A row of \<^verbatim>\<open>cart_items\<close>, and the \<^verbatim>\<open>CartItem\<close> of the client: the row with its
  joined product, which the type declares optional (\<^verbatim>\<open>products?: Product\<close>).\<close>

record cart_row =
  ci_id :: uuid
  ci_user_id :: uuid
  ci_product_id :: uuid
  ci_quantity :: int

record cart_item = cart_row +
  products :: "product option"

record wishlist_row =
  wi_id :: uuid
  wi_user_id :: uuid
  wi_product_id :: uuid

datatype order_status = pending | processing | shipped | delivered | cancelled

record shipping_address =
  full_name :: string
  phone :: string
  street :: string
  city :: string
  state :: string
  postal_code :: string
  country :: string

record order_row =
  or_id :: uuid
  or_user_id :: uuid
  total_amount :: number
  status :: order_status
  shipping_addr :: shipping_address

record order_item_row =
  oi_id :: uuid
  oi_order_id :: uuid
  oi_product_id :: uuid
  oi_quantity :: int
  oi_price :: number

text \<open>What \<^verbatim>\<open>createOrder\<close> sends for one order line (the store adds the \<^verbatim>\<open>id\<close>), and
  what \<^verbatim>\<open>getOrderById\<close> reads back: the row with its joined product.\<close>

record new_order_item =
  new_order_id :: uuid
  new_product_id :: uuid
  new_quantity :: int
  new_price :: number


record filter_options =
  category :: "uuid option"
  minPrice :: "number option"
  maxPrice :: "number option"
  search :: "string option"

text \<open>The errors a call can end with: the error object the store client hands back
  (\<^verbatim>\<open>throw error\<close>), \<^verbatim>\<open>new Error(message)\<close>, and the \<^verbatim>\<open>TypeError\<close> JavaScript raises when
  a property of \<^verbatim>\<open>undefined\<close> is read.\<close>

datatype pg_error =
    network_failure
  | rls_violation
  | numeric_out_of_range
  | check_violation
  | unique_violation
  | foreign_key_violation

datatype error = PostgrestError pg_error | Error string | TypeError

text \<open>The world: the tables, the identity of the session (\<^verbatim>\<open>useAuth().user\<close>, which is
  also \<^verbatim>\<open>auth.uid()\<close> in the store's policies), and the state of \<^verbatim>\<open>CartProvider\<close>.\<close>

record world =
  tbl_products :: "product list"
  tbl_cart_items :: "cart_row list"
  tbl_wishlist_items :: "wishlist_row list"
  tbl_orders :: "order_row list"
  tbl_order_items :: "order_item_row list"
  next_uuid :: uuid
  faults :: "bool list"
  console :: "string list"
  user :: "uuid option"
  cartItems :: "cart_item list"
  loading :: bool

section \<open>The store\<close>

definition next_request :: "world \<Rightarrow> bool \<times> world" where
  "next_request w = (faults w \<noteq> [] \<and> hd (faults w), w\<lparr>faults := tl (faults w)\<rparr>)"

text \<open>The next \<open>n\<close> requests reach the store.\<close>

definition no_faults :: "nat \<Rightarrow> world \<Rightarrow> bool" where
  "no_faults n w = (\<forall>f \<in> set (take n (faults w)). \<not> f)"

definition console_error :: "string \<Rightarrow> world \<Rightarrow> world" where
  "console_error msg w = w\<lparr>console := console w @ [msg]\<rparr>"

text \<open>Column types. \<^verbatim>\<open>integer\<close> is 32 bits wide; \<^verbatim>\<open>decimal(10,2)\<close> rounds to two places
  (half away from zero) and holds at most ten digits, two of them after the point.\<close>

definition int4 :: "int \<Rightarrow> bool" where
  "int4 q = (- (2 ^ 31) \<le> q \<and> q < 2 ^ 31)"

definition numeric_10_2 :: "number \<Rightarrow> number option" where
  "numeric_10_2 x =
     (let cents = (if 0 \<le> x then \<lfloor>x * 100 + 1 / 2\<rfloor> else - \<lfloor>- x * 100 + 1 / 2\<rfloor>)
      in if \<bar>cents\<bar> < 10 ^ 10 then Some (of_int cents / 100) else None)"

text \<open>Policy \<^verbatim>\<open>"Products are viewable by everyone" USING (is_active = true)\<close>: a join
  onto \<^verbatim>\<open>products\<close> finds active products only.\<close>

definition visible_product :: "world \<Rightarrow> uuid \<Rightarrow> product option" where
  "visible_product w pid = find (\<lambda>p. pr_id p = pid \<and> pr_is_active p) (tbl_products w)"

definition product_exists :: "world \<Rightarrow> uuid \<Rightarrow> bool" where
  "product_exists w pid = (\<exists>p \<in> set (tbl_products w). pr_id p = pid)"

subsection \<open>Table \<^verbatim>\<open>cart_items\<close>\<close>

text \<open>
  \<^verbatim>\<open>quantity integer NOT NULL CHECK (quantity > 0)\<close>, \<^verbatim>\<open>UNIQUE(user_id, product_id)\<close>,
  \<^verbatim>\<open>product_id uuid REFERENCES products(id)\<close>; each policy is
  \<^verbatim>\<open>auth.uid() = user_id\<close>: a row of another identity is neither seen, changed nor
  deleted, and cannot be inserted.
\<close>

definition owns :: "world \<Rightarrow> uuid \<Rightarrow> bool" where
  "owns w uid = (user w = Some uid)"

definition join_product :: "world \<Rightarrow> cart_row \<Rightarrow> cart_item" where
  "join_product w r =
     \<lparr>ci_id = ci_id r, ci_user_id = ci_user_id r, ci_product_id = ci_product_id r,
      ci_quantity = ci_quantity r, products = visible_product w (ci_product_id r)\<rparr>"

definition cart_view :: "world \<Rightarrow> uuid \<Rightarrow> cart_item list" where
  "cart_view w uid =
     map (join_product w)
       (filter (\<lambda>r. owns w (ci_user_id r) \<and> ci_user_id r = uid) (tbl_cart_items w))"

definition select_cart_items :: "world \<Rightarrow> uuid \<Rightarrow> (pg_error + cart_item list) \<times> world" where
  "select_cart_items w0 uid =
     (let (down, w) = next_request w0
      in if down then (Inl network_failure, w) else (Inr (cart_view w uid), w))"

definition insert_cart_items ::
  "world \<Rightarrow> uuid \<Rightarrow> uuid \<Rightarrow> int \<Rightarrow> (pg_error + unit) \<times> world" where
  "insert_cart_items w0 uid pid qty =
     (let (down, w) = next_request w0
      in if down then (Inl network_failure, w)
         else if \<not> int4 qty then (Inl numeric_out_of_range, w)
         else if \<not> owns w uid then (Inl rls_violation, w)
         else if \<not> 0 < qty then (Inl check_violation, w)
         else if \<exists>r \<in> set (tbl_cart_items w). ci_user_id r = uid \<and> ci_product_id r = pid
           then (Inl unique_violation, w)
         else if \<not> product_exists w pid then (Inl foreign_key_violation, w)
         else (Inr (),
               w\<lparr>tbl_cart_items := tbl_cart_items w @
                    [\<lparr>ci_id = next_uuid w, ci_user_id = uid, ci_product_id = pid,
                      ci_quantity = qty\<rparr>],
                 next_uuid := Suc (next_uuid w)\<rparr>))"

definition update_cart_quantity ::
  "world \<Rightarrow> uuid \<Rightarrow> int \<Rightarrow> (pg_error + unit) \<times> world" where
  "update_cart_quantity w0 itemId qty =
     (let (down, w) = next_request w0;
          hit = (\<lambda>r. ci_id r = itemId \<and> owns w (ci_user_id r))
      in if down then (Inl network_failure, w)
         else if \<not> int4 qty then (Inl numeric_out_of_range, w)
         else if \<not> 0 < qty \<and> (\<exists>r \<in> set (tbl_cart_items w). hit r)
           then (Inl check_violation, w)
         else (Inr (),
               w\<lparr>tbl_cart_items :=
                    map (\<lambda>r. if hit r then r\<lparr>ci_quantity := qty\<rparr> else r)
                      (tbl_cart_items w)\<rparr>))"

definition delete_cart_items :: "world \<Rightarrow> (cart_row \<Rightarrow> bool) \<Rightarrow> (pg_error + unit) \<times> world" where
  "delete_cart_items w0 cond =
     (let (down, w) = next_request w0
      in if down then (Inl network_failure, w)
         else (Inr (),
               w\<lparr>tbl_cart_items :=
                    filter (\<lambda>r. \<not> (cond r \<and> owns w (ci_user_id r))) (tbl_cart_items w)\<rparr>))"

section \<open>JavaScript numbers\<close>

text \<open>
  A \<^verbatim>\<open>number\<close> is an IEEE 754 double: a finite value (held here as the rational it
  is), an infinity or \<^verbatim>\<open>NaN\<close>; the two zeros are one value, which \<^verbatim>\<open>+\<close>, \<^verbatim>\<open>*\<close> and
  \<^verbatim>\<open>||\<close> cannot tell apart. \<open>fl\<close> rounds a rational to the nearest double, ties to the
  even significand: 53 significant bits, exponents from \<open>-1022\<close> (below it the doubles
  keep the spacing \<open>2 powi (- 1074)\<close>) to \<open>1023\<close> (a rounded value of \<open>2 powi 1024\<close> or
  more is an infinity). \<open>ilog2 x\<close> is the exponent \<open>e\<close> with
  \<open>2 powi e \<le> \<bar>x\<bar>\<close> and \<open>\<bar>x\<bar> < 2 powi (e + 1)\<close>.
  Reading a number of the store's answer is \<open>fl\<close> of the column's value.
\<close>

datatype double = Finite rat | PInf | NInf | NaN

definition rne :: "rat \<Rightarrow> int" where
  "rne q =
     (let f = \<lfloor>q\<rfloor>; d = q - of_int f
      in if d < 1 / 2 then f else if 1 / 2 < d then f + 1 else if even f then f else f + 1)"

definition ilog2 :: "rat \<Rightarrow> int" where
  "ilog2 x =
     (let (a, b) = quotient_of x; k = bitlen \<bar>a\<bar> - bitlen b
      in if 2 powi k \<le> \<bar>x\<bar> then k else k - 1)"

definition fl :: "rat \<Rightarrow> double" where
  "fl x =
     (if x = 0 then Finite 0
      else (let u = 2 powi (max (ilog2 x) (- 1022) - 52); r = of_int (rne (x / u)) * u
            in if 1024 \<le> ilog2 r then (if 0 < r then PInf else NInf) else Finite r))"

fun dadd :: "double \<Rightarrow> double \<Rightarrow> double" where
  "dadd NaN _ = NaN"
| "dadd _ NaN = NaN"
| "dadd PInf NInf = NaN"
| "dadd NInf PInf = NaN"
| "dadd PInf _ = PInf"
| "dadd _ PInf = PInf"
| "dadd NInf _ = NInf"
| "dadd _ NInf = NInf"
| "dadd (Finite a) (Finite b) = fl (a + b)"

definition times_inf :: "rat \<Rightarrow> double \<Rightarrow> double" where
  "times_inf a v =
     (if a = 0 then NaN else if 0 < a then v else if v = PInf then NInf else PInf)"

fun dmul :: "double \<Rightarrow> double \<Rightarrow> double" where
  "dmul NaN _ = NaN"
| "dmul _ NaN = NaN"
| "dmul (Finite a) (Finite b) = fl (a * b)"
| "dmul (Finite a) PInf = times_inf a PInf"
| "dmul (Finite a) NInf = times_inf a NInf"
| "dmul PInf (Finite b) = times_inf b PInf"
| "dmul NInf (Finite b) = times_inf b NInf"
| "dmul PInf PInf = PInf"
| "dmul NInf NInf = PInf"
| "dmul PInf NInf = NInf"
| "dmul NInf PInf = NInf"

text \<open>What \<^verbatim>\<open>||\<close> takes for false among the numbers.\<close>

definition falsy :: "double \<Rightarrow> bool" where
  "falsy v = (v = Finite 0 \<or> v = NaN)"

section \<open>\<^verbatim>\<open>CartProvider\<close> (contexts/CartContext.tsx)\<close>

definition loadCartItems :: "world \<Rightarrow> world" where
  "loadCartItems w0 =
     (case user w0 of
        None \<Rightarrow> w0
      | Some uid \<Rightarrow>
          (let (res, w) = select_cart_items (w0\<lparr>loading := True\<rparr>) uid;
               w' = (case res of
                       Inl e \<Rightarrow> console_error ''Error loading cart items:'' w
                     | Inr data \<Rightarrow> w\<lparr>cartItems := data\<rparr>)
           in w'\<lparr>loading := False\<rparr>))"

definition removeFromCart :: "world \<Rightarrow> uuid \<Rightarrow> (error + unit) \<times> world" where
  "removeFromCart w0 itemId =
     (case delete_cart_items w0 (\<lambda>r. ci_id r = itemId) of
        (Inl e, w) \<Rightarrow> (Inl (PostgrestError e), console_error ''Error removing from cart:'' w)
      | (Inr _, w) \<Rightarrow> (Inr (), loadCartItems w))"

definition updateCartItem :: "world \<Rightarrow> uuid \<Rightarrow> int \<Rightarrow> (error + unit) \<times> world" where
  "updateCartItem w0 itemId quantity =
     (if quantity \<le> 0 then removeFromCart w0 itemId
      else (case update_cart_quantity w0 itemId quantity of
              (Inl e, w) \<Rightarrow> (Inl (PostgrestError e), console_error ''Error updating cart item:'' w)
            | (Inr _, w) \<Rightarrow> (Inr (), loadCartItems w)))"

text \<open>\<^verbatim>\<open>addToCart(productId, quantity = 1)\<close>: the default is the caller's \<open>1\<close>.\<close>

definition addToCart :: "world \<Rightarrow> uuid \<Rightarrow> int \<Rightarrow> (error + unit) \<times> world" where
  "addToCart w0 productId quantity =
     (case user w0 of
        None \<Rightarrow> (Inl (Error ''Must be logged in to add items to cart''), w0)
      | Some uid \<Rightarrow>
          (case find (\<lambda>item. ci_product_id item = productId) (cartItems w0) of
             Some existingItem \<Rightarrow>
               updateCartItem w0 (ci_id existingItem) (ci_quantity existingItem + quantity)
           | None \<Rightarrow>
               (case insert_cart_items w0 uid productId quantity of
                  (Inl e, w) \<Rightarrow> (Inl (PostgrestError e), console_error ''Error adding to cart:'' w)
                | (Inr _, w) \<Rightarrow> (Inr (), loadCartItems w))))"

definition clearCart :: "world \<Rightarrow> (error + unit) \<times> world" where
  "clearCart w0 =
     (case user w0 of
        None \<Rightarrow> (Inr (), w0)
      | Some uid \<Rightarrow>
          (case delete_cart_items w0 (\<lambda>r. ci_user_id r = uid) of
             (Inl e, w) \<Rightarrow> (Inl (PostgrestError e), console_error ''Error clearing cart:'' w)
           | (Inr _, w) \<Rightarrow> (Inr (), w\<lparr>cartItems := []\<rparr>)))"

text \<open>The two totals are \<^verbatim>\<open>reduce\<close> calls from \<open>0\<close>, in JavaScript numbers: the price
  and the quantity of a line are the doubles read from the store's answer.
  \<^verbatim>\<open>item.products?.price || 0\<close> is \<open>0\<close> when the product is absent, and when the price is
  itself falsy.\<close>

definition totalItems :: "cart_item list \<Rightarrow> double" where
  "totalItems items =
     foldl (\<lambda>sum item. dadd sum (fl (of_int (ci_quantity item)))) (Finite 0) items"

definition price_or_0 :: "cart_item \<Rightarrow> double" where
  "price_or_0 item =
     (case products item of
        None \<Rightarrow> Finite 0
      | Some p \<Rightarrow> if falsy (fl (pr_price p)) then Finite 0 else fl (pr_price p))"

definition totalAmount :: "cart_item list \<Rightarrow> double" where
  "totalAmount items =
     foldl (\<lambda>sum item. dadd sum (dmul (price_or_0 item) (fl (of_int (ci_quantity item)))))
       (Finite 0) items"

section \<open>The other tables\<close>

subsection \<open>Table \<^verbatim>\<open>wishlist_items\<close>\<close>

text \<open>\<^verbatim>\<open>UNIQUE(user_id, product_id)\<close>, \<^verbatim>\<open>product_id uuid REFERENCES products(id)\<close>, insert
  policy \<^verbatim>\<open>auth.uid() = user_id\<close>.\<close>

definition insert_wishlist_items :: "world \<Rightarrow> uuid \<Rightarrow> uuid \<Rightarrow> (pg_error + unit) \<times> world" where
  "insert_wishlist_items w0 uid pid =
     (let (down, w) = next_request w0
      in if down then (Inl network_failure, w)
         else if \<not> owns w uid then (Inl rls_violation, w)
         else if \<exists>r \<in> set (tbl_wishlist_items w). wi_user_id r = uid \<and> wi_product_id r = pid
           then (Inl unique_violation, w)
         else if \<not> product_exists w pid then (Inl foreign_key_violation, w)
         else (Inr (),
               w\<lparr>tbl_wishlist_items := tbl_wishlist_items w @
                    [\<lparr>wi_id = next_uuid w, wi_user_id = uid, wi_product_id = pid\<rparr>],
                 next_uuid := Suc (next_uuid w)\<rparr>))"

subsection \<open>Tables \<^verbatim>\<open>orders\<close> and \<^verbatim>\<open>order_items\<close>\<close>

text \<open>
  \<^verbatim>\<open>total_amount decimal(10,2) NOT NULL CHECK (total_amount > 0)\<close>, insert policy
  \<^verbatim>\<open>auth.uid() = user_id\<close>; the inserted row is returned (\<^verbatim>\<open>.select().single()\<close>).
\<close>

definition insert_orders ::
  "world \<Rightarrow> uuid \<Rightarrow> number \<Rightarrow> order_status \<Rightarrow> shipping_address \<Rightarrow> (pg_error + order_row) \<times> world" where
  "insert_orders w0 uid amount0 st addr =
     (let (down, w) = next_request w0
      in if down then (Inl network_failure, w)
         else (case numeric_10_2 amount0 of
                 None \<Rightarrow> (Inl numeric_out_of_range, w)
               | Some amount \<Rightarrow>
                   if \<not> owns w uid then (Inl rls_violation, w)
                   else if \<not> 0 < amount then (Inl check_violation, w)
                   else (let row = \<lparr>or_id = next_uuid w, or_user_id = uid, total_amount = amount,
                                     status = st, shipping_addr = addr\<rparr>
                         in (Inr row,
                             w\<lparr>tbl_orders := tbl_orders w @ [row],
                               next_uuid := Suc (next_uuid w)\<rparr>))))"

text \<open>
  \<^verbatim>\<open>quantity integer NOT NULL CHECK (quantity > 0)\<close>,
  \<^verbatim>\<open>price decimal(10,2) NOT NULL CHECK (price > 0)\<close>,
  \<^verbatim>\<open>product_id uuid REFERENCES products(id)\<close>; the insert policy asks that the order
  of the line belongs to the session. One statement inserts all lines or none.
\<close>

definition coerce_order_item :: "world \<Rightarrow> new_order_item \<Rightarrow> pg_error + new_order_item" where
  "coerce_order_item w v =
     (if \<not> int4 (new_quantity v) then Inl numeric_out_of_range
      else (case numeric_10_2 (new_price v) of
              None \<Rightarrow> Inl numeric_out_of_range
            | Some pr \<Rightarrow>
                if \<not> (\<exists>ord \<in> set (tbl_orders w). or_id ord = new_order_id v \<and> owns w (or_user_id ord))
                  then Inl rls_violation
                else if \<not> (0 < new_quantity v \<and> 0 < pr) then Inl check_violation
                else if \<not> product_exists w (new_product_id v) then Inl foreign_key_violation
                else Inr (v\<lparr>new_price := pr\<rparr>)))"

fun coerce_order_items :: "world \<Rightarrow> new_order_item list \<Rightarrow> pg_error + new_order_item list" where
  "coerce_order_items w [] = Inr []"
| "coerce_order_items w (v # vs) =
     (case coerce_order_item w v of
        Inl e \<Rightarrow> Inl e
      | Inr v' \<Rightarrow>
          (case coerce_order_items w vs of
             Inl e \<Rightarrow> Inl e
           | Inr vs' \<Rightarrow> Inr (v' # vs')))"

definition stored_order_item :: "uuid \<Rightarrow> new_order_item \<Rightarrow> order_item_row" where
  "stored_order_item i v =
     \<lparr>oi_id = i, oi_order_id = new_order_id v, oi_product_id = new_product_id v,
      oi_quantity = new_quantity v, oi_price = new_price v\<rparr>"

definition insert_order_items :: "world \<Rightarrow> new_order_item list \<Rightarrow> (pg_error + unit) \<times> world" where
  "insert_order_items w0 vs =
     (let (down, w) = next_request w0
      in if down then (Inl network_failure, w)
         else (case coerce_order_items w vs of
                 Inl e \<Rightarrow> (Inl e, w)
               | Inr rows \<Rightarrow>
                   (Inr (),
                    w\<lparr>tbl_order_items := tbl_order_items w @
                         map2 stored_order_item [next_uuid w ..< next_uuid w + length rows] rows,
                      next_uuid := next_uuid w + length rows\<rparr>)))"

section \<open>\<^verbatim>\<open>WishlistService\<close> and \<^verbatim>\<open>OrderService\<close>\<close>

definition addToWishlist :: "world \<Rightarrow> uuid \<Rightarrow> uuid \<Rightarrow> (error + unit) \<times> world" where
  "addToWishlist w0 userId productId =
     (case insert_wishlist_items w0 userId productId of
        (Inl e, w) \<Rightarrow> (Inl (PostgrestError e), console_error ''Error adding to wishlist:'' w)
      | (Inr _, w) \<Rightarrow> (Inr (), w))"

text \<open>\<^verbatim>\<open>cartItems.reduce((sum, item) => sum + (item.products.price * item.quantity), 0)\<close>:
  reading \<^verbatim>\<open>.price\<close> of an absent product raises.\<close>

fun reduce_total :: "number \<Rightarrow> cart_item list \<Rightarrow> error + number" where
  "reduce_total acc [] = Inr acc"
| "reduce_total acc (item # rest) =
     (case products item of
        None \<Rightarrow> Inl TypeError
      | Some p \<Rightarrow> reduce_total (acc + pr_price p * of_int (ci_quantity item)) rest)"


text \<open>\<^verbatim>\<open>cartItems.map(item => ({ order_id, product_id, quantity, price: item.products.price }))\<close>\<close>

fun map_order_items :: "uuid \<Rightarrow> cart_item list \<Rightarrow> error + new_order_item list" where
  "map_order_items oid [] = Inr []"
| "map_order_items oid (item # rest) =
     (case products item of
        None \<Rightarrow> Inl TypeError
      | Some p \<Rightarrow>
          (case map_order_items oid rest of
             Inl e \<Rightarrow> Inl e
           | Inr vs \<Rightarrow>
               Inr (\<lparr>new_order_id = oid, new_product_id = ci_product_id item,
                     new_quantity = ci_quantity item, new_price = pr_price p\<rparr> # vs)))"

definition createOrder ::
  "world \<Rightarrow> uuid \<Rightarrow> cart_item list \<Rightarrow> shipping_address \<Rightarrow> (error + uuid) \<times> world" where
  "createOrder w0 userId items shippingAddress =
     (case reduce_total 0 items of
        Inl e \<Rightarrow> (Inl e, w0)
      | Inr totalAmount' \<Rightarrow>
          (case insert_orders w0 userId totalAmount' pending shippingAddress of
             (Inl orderError, w1) \<Rightarrow>
               (Inl (PostgrestError orderError), console_error ''Error creating order:'' w1)
           | (Inr ord, w1) \<Rightarrow>
               (case map_order_items (or_id ord) items of
                  Inl e \<Rightarrow> (Inl e, w1)
                | Inr orderItems \<Rightarrow>
                    (case insert_order_items w1 orderItems of
                       (Inl itemsError, w2) \<Rightarrow>
                         (Inl (PostgrestError itemsError),
                          console_error ''Error creating order items:'' w2)
                     | (Inr _, w2) \<Rightarrow>
                         (case delete_cart_items w2 (\<lambda>r. ci_user_id r = userId) of
                            (Inl cartError, w3) \<Rightarrow>
                              (Inr (or_id ord), console_error ''Error clearing cart:'' w3)
                          | (Inr _, w3) \<Rightarrow> (Inr (or_id ord), w3))))))"



section \<open>\<^verbatim>\<open>ProductService\<close>\<close>

text \<open>
  \<^verbatim>\<open>ilike\<close> is the store's case-insensitive \<^verbatim>\<open>LIKE\<close>: in the pattern \<^verbatim>\<open>%\<close> stands for any
  run of characters, \<^verbatim>\<open>_\<close> for any one character, and a backslash takes the next
  character literally. Letters are compared in lower case (ASCII).
\<close>

fun like :: "string \<Rightarrow> string \<Rightarrow> bool" where
  "like [] t = (t = [])"
| "like (c # p) t =
     (if c = CHR ''%'' then
        like p t \<or> (case t of [] \<Rightarrow> False | _ # t' \<Rightarrow> like (c # p) t')
      else if c = CHR ''_'' then
        (case t of [] \<Rightarrow> False | _ # t' \<Rightarrow> like p t')
      else if c = CHR 0x5C then
        (case p of
           [] \<Rightarrow> False
         | e # p' \<Rightarrow> (case t of [] \<Rightarrow> False | x # t' \<Rightarrow> x = e \<and> like p' t'))
      else (case t of [] \<Rightarrow> False | x # t' \<Rightarrow> x = c \<and> like p t'))"

definition lower :: "char \<Rightarrow> char" where
  "lower c =
     (let n = (of_char c :: nat) in if 65 \<le> n \<and> n \<le> 90 then char_of (n + 32) else c)"

text \<open>The store's interface reads \<^verbatim>\<open>*\<close> in a pattern as \<^verbatim>\<open>%\<close>.\<close>

definition star :: "char \<Rightarrow> char" where
  "star c = (if c = CHR ''*'' then CHR ''%'' else c)"

definition ilike :: "string \<Rightarrow> string \<Rightarrow> bool" where
  "ilike pat txt = like (map lower (map star pat)) (map lower txt)"

text \<open>
  \<^verbatim>\<open>getProducts(filters)\<close>. A filter is applied when its option is truthy
  (\<^verbatim>\<open>category\<close>, \<^verbatim>\<open>search\<close>: present and not the empty string; a \<^verbatim>\<open>uuid\<close> is never the
  empty string) or defined (\<^verbatim>\<open>minPrice\<close>, \<^verbatim>\<open>maxPrice\<close>). The search filter is
  \<^verbatim>\<open>or(name.ilike.%term%,description.ilike.%term%)\<close>, the term pasted into the filter
  as it is. A term holding \<^verbatim>\<open>,\<close> or a parenthesis changes the structure of that filter;
  this is not followed here, and the properties below leave such terms out.
\<close>

definition matches :: "filter_options \<Rightarrow> product \<Rightarrow> bool" where
  "matches filters p =
     (pr_is_active p
      \<and> (case category filters of None \<Rightarrow> True | Some c \<Rightarrow> pr_category_id p = c)
      \<and> (case minPrice filters of None \<Rightarrow> True | Some lo \<Rightarrow> lo \<le> pr_price p)
      \<and> (case maxPrice filters of None \<Rightarrow> True | Some hi \<Rightarrow> pr_price p \<le> hi)
      \<and> (case search filters of
           None \<Rightarrow> True
         | Some term \<Rightarrow>
             term = [] \<or> ilike (''%'' @ term @ ''%'') (pr_name p)
               \<or> ilike (''%'' @ term @ ''%'') (pr_description p)))"

definition newest_first :: "product list \<Rightarrow> product list" where
  "newest_first ps = rev (sort_key pr_created_at ps)"

definition getProducts :: "world \<Rightarrow> filter_options \<Rightarrow> (error + product list) \<times> world" where
  "getProducts w0 filters =
     (let (down, w) = next_request w0
      in if down then (Inl (PostgrestError network_failure),
                       console_error ''Error fetching products:'' w)
         else (Inr (newest_first (filter (matches filters) (tbl_products w))), w))"

definition getProductById :: "world \<Rightarrow> uuid \<Rightarrow> product option \<times> world" where
  "getProductById w0 pid =
     (let (down, w) = next_request w0
      in if down then (None, console_error ''Error fetching product:'' w)
         else (case filter (\<lambda>p. pr_id p = pid \<and> pr_is_active p) (tbl_products w) of
                 [p] \<Rightarrow> (Some p, w)
               | _ \<Rightarrow> (None, console_error ''Error fetching product:'' w)))"

definition getFeaturedProducts :: "world \<Rightarrow> nat \<Rightarrow> (error + product list) \<times> world" where
  "getFeaturedProducts w0 limit =
     (let (down, w) = next_request w0
      in if down then (Inl (PostgrestError network_failure),
                       console_error ''Error fetching featured products:'' w)
         else (Inr (take limit (newest_first (filter pr_is_active (tbl_products w)))), w))"

section \<open>Sample data\<close>

text \<open>Three products of the migration's sample catalogue (the lamp withdrawn from sale),
  a signed-in shopper with an empty cart, and a shipping address.\<close>

definition headphones :: product where
  "headphones =
     \<lparr>pr_id = 1, pr_name = ''Wireless Bluetooth Headphones'',
      pr_description = ''High-quality wireless headphones with noise cancellation'',
      pr_price = 19999 / 100, pr_category_id = 11, pr_stock_quantity = 50,
      pr_is_active = True, pr_created_at = 1\<rparr>"

definition tshirt :: product where
  "tshirt =
     \<lparr>pr_id = 2, pr_name = ''Casual Cotton T-Shirt'',
      pr_description = ''Comfortable 100% cotton t-shirt in various colors'',
      pr_price = 2499 / 100, pr_category_id = 12, pr_stock_quantity = 100,
      pr_is_active = True, pr_created_at = 2\<rparr>"

definition lamp :: product where
  "lamp =
     \<lparr>pr_id = 3, pr_name = ''Modern Table Lamp'',
      pr_description = ''Elegant table lamp with adjustable brightness'',
      pr_price = 8999 / 100, pr_category_id = 13, pr_stock_quantity = 25,
      pr_is_active = False, pr_created_at = 3\<rparr>"

definition shopper :: uuid where
  "shopper = 7"

definition home :: shipping_address where
  "home =
     \<lparr>full_name = ''A Shopper'', phone = ''555-0100'', street = ''1 Main Street'',
      city = ''Springfield'', state = ''IL'', postal_code = ''62701'', country = ''US''\<rparr>"

definition shop :: world where
  "shop =
     \<lparr>tbl_products = [headphones, tshirt, lamp], tbl_cart_items = [],
      tbl_wishlist_items = [], tbl_orders = [], tbl_order_items = [], next_uuid = 100,
      faults = [], console = [], user = Some shopper, cartItems = [], loading = False\<rparr>"

definition line :: "uuid \<Rightarrow> product \<Rightarrow> int \<Rightarrow> cart_item" where
  "line i p q =
     \<lparr>ci_id = i, ci_user_id = shopper, ci_product_id = pr_id p, ci_quantity = q,
      products = (if pr_is_active p then Some p else None)\<rparr>"

definition row :: "uuid \<Rightarrow> product \<Rightarrow> int \<Rightarrow> cart_row" where
  "row i p q = \<lparr>ci_id = i, ci_user_id = shopper, ci_product_id = pr_id p, ci_quantity = q\<rparr>"

text \<open>The same shop once the shopper has put one pair of headphones and two T-shirts
  into the cart and the cart has been loaded.\<close>

definition cart_shop :: world where
  "cart_shop =
     shop\<lparr>tbl_cart_items := [row 51 headphones 1, row 52 tshirt 2],
          cartItems := [line 51 headphones 1, line 52 tshirt 2]\<rparr>"

text \<open>The same again when the third request from now will fail in transit.\<close>

definition flaky_shop :: world where
  "flaky_shop = cart_shop\<lparr>faults := [False, False, True]\<rparr>"

lemmas sample_defs =
  headphones_def tshirt_def lamp_def shopper_def home_def shop_def line_def row_def
  cart_shop_def flaky_shop_def

section \<open>Vocabulary of the properties\<close>


text \<open>The exact amount of a line: price times quantity, \<open>0\<close> without a product.\<close>

definition line_amount :: "cart_item \<Rightarrow> number" where
  "line_amount item =
     (case products item of None \<Rightarrow> 0 | Some p \<Rightarrow> pr_price p * of_int (ci_quantity item))"

text \<open>A cart line as the store returns it: the quantity is a positive value of the
  \<^verbatim>\<open>integer\<close> column, and the price of the joined product, if there is one, a positive
  value of the \<^verbatim>\<open>decimal(10,2)\<close> column (the types and CHECKs of \<^verbatim>\<open>cart_items\<close> and
  \<^verbatim>\<open>products\<close>).\<close>

definition stored_line :: "cart_item \<Rightarrow> bool" where
  "stored_line item =
     (0 < ci_quantity item \<and> int4 (ci_quantity item)
      \<and> (case products item of
           None \<Rightarrow> True
         | Some p \<Rightarrow> 0 < pr_price p \<and> numeric_10_2 (pr_price p) = Some (pr_price p)))"

text \<open>The order line \<^verbatim>\<open>createOrder\<close> sends for a cart line, and the world once the order
  and its lines are stored (two requests made, identifiers issued in sequence).\<close>

definition wanted :: "uuid \<Rightarrow> cart_item \<Rightarrow> new_order_item" where
  "wanted oid item = \<lparr>new_order_id = oid, new_product_id = ci_product_id item,
      new_quantity = ci_quantity item, new_price = (case products item of None \<Rightarrow> 0 | Some p \<Rightarrow> pr_price p)\<rparr>"




definition wish_key :: "wishlist_row \<Rightarrow> uuid \<times> uuid" where
  "wish_key r = (wi_user_id r, wi_product_id r)"

text \<open>The characters a pattern reads specially. A search term with no character that
  a pattern or the filter syntax reads specially (\<^verbatim>\<open>%\<close>, \<^verbatim>\<open>_\<close>, backslash, \<^verbatim>\<open>*\<close>, comma,
  parentheses), and the reading of "case-insensitive substring": a contiguous sublist
  once both sides are in lower case.\<close>

definition wild :: "char \<Rightarrow> bool" where
  "wild c = (c = CHR ''%'' \<or> c = CHR ''_'' \<or> c = CHR 0x5C)"

definition plain :: "string \<Rightarrow> bool" where
  "plain term =
     (\<forall>c \<in> set term.
        c \<notin> set [CHR ''%'', CHR ''_'', CHR 0x5C, CHR ''*'', CHR '','', CHR ''('', CHR '')''])"

definition contains_ci :: "string \<Rightarrow> string \<Rightarrow> bool" where
  "contains_ci txt term = sublist (map lower term) (map lower txt)"


datatype error_kind =
  ValidationError | NotFoundError | EmptyCartError | ConflictError | StoreError

text \<open>Modelled from the spec: the error taxonomy of its section 7, which the code does
  not declare. A uniqueness violation is a \<^verbatim>\<open>ConflictError\<close>, every other failure of the
  store (network or constraint) a \<^verbatim>\<open>StoreError\<close>; the other errors of the code are
  outside the taxonomy.\<close>

definition kind_of :: "error \<Rightarrow> error_kind option" where
  "kind_of e =
     (case e of
        PostgrestError pe \<Rightarrow> if pe = unique_violation then Some ConflictError else Some StoreError
      | Error _ \<Rightarrow> None
      | TypeError \<Rightarrow> None)"

section \<open>Rounding to a double\<close>

lemma pow2_less_imp: "(2::rat) powi a \<le> z \<Longrightarrow> z < 2 powi b \<Longrightarrow> a < b"
proof (rule ccontr)
  assume h: "2 powi a \<le> z" "z < 2 powi b" and "\<not> a < b"
  then have "b \<le> a" by simp
  then have "(2::rat) powi b \<le> 2 powi a" by (intro power_int_increasing) simp_all
  with h show False by simp
qed

lemma int_powi_bounds:
  assumes "0 < a"
  shows "(2::rat) powi (bitlen a - 1) \<le> of_int a" and "(of_int a :: rat) < 2 powi (bitlen a)"
proof -
  from assms have l: "1 \<le> bitlen a"
    by (simp add: bitlen_alt_def)
  from bitlen_bounds [OF assms] have lo: "2 ^ nat (bitlen a - 1) \<le> a" and hi: "a < 2 ^ nat (bitlen a)"
    by simp_all
  from lo have "(of_int (2 ^ nat (bitlen a - 1)) :: rat) \<le> of_int a"
    by (simp only: of_int_le_iff)
  then show "(2::rat) powi (bitlen a - 1) \<le> of_int a"
    using l by (simp add: power_int_nonneg_exp)
  from hi have "(of_int a :: rat) < of_int (2 ^ nat (bitlen a))"
    by (simp only: of_int_less_iff)
  then show "(of_int a :: rat) < 2 powi (bitlen a)"
    using l by (simp add: power_int_nonneg_exp)
qed

lemma ilog2_bounds:
  assumes "x \<noteq> 0"
  shows "2 powi (ilog2 x) \<le> \<bar>x\<bar>" and "\<bar>x\<bar> < 2 powi (ilog2 x + 1)"
proof -
  obtain a b where q: "quotient_of x = (a, b)" by (cases "quotient_of x")
  then have b: "0 < b" and x: "x = of_int a / of_int b"
    by (simp_all add: quotient_of_denom_pos quotient_of_div)
  with assms have a: "0 < \<bar>a\<bar>" by auto
  let ?A = "of_int \<bar>a\<bar> :: rat" and ?B = "of_int b :: rat"
  let ?k = "bitlen \<bar>a\<bar> - bitlen b"
  have ax: "\<bar>x\<bar> = ?A / ?B" using b by (simp add: x)
  have B0: "0 < ?B" using b by simp
  note A = int_powi_bounds [OF a] and B = int_powi_bounds [OF b]
  have "?A / ?B < 2 powi (bitlen \<bar>a\<bar>) / ?B"
    using A(2) B0 by (simp add: divide_strict_right_mono)
  also have "\<dots> \<le> 2 powi (bitlen \<bar>a\<bar>) / 2 powi (bitlen b - 1)"
    using B(1) B0 by (intro divide_left_mono) simp_all
  also have "\<dots> = 2 powi (?k + 1)"
    by (simp add: power_int_diff power_int_add)
  finally have up: "\<bar>x\<bar> < 2 powi (?k + 1)" by (simp add: ax)
  have "2 powi (?k - 1) = 2 powi (bitlen \<bar>a\<bar> - 1) / (2::rat) powi (bitlen b)"
    by (simp add: power_int_diff power_int_add)
  also have "\<dots> \<le> ?A / 2 powi (bitlen b)"
    using A(1) by (simp add: divide_right_mono)
  also have "\<dots> < ?A / ?B"
    using B(2) B0 a by (intro divide_strict_left_mono) simp_all
  finally have lo: "2 powi (?k - 1) < \<bar>x\<bar>" by (simp add: ax)
  have e: "ilog2 x = (if 2 powi ?k \<le> \<bar>x\<bar> then ?k else ?k - 1)"
    by (simp add: ilog2_def q)
  show "2 powi (ilog2 x) \<le> \<bar>x\<bar>"
    using lo by (simp add: e)
  show "\<bar>x\<bar> < 2 powi (ilog2 x + 1)"
    using up by (auto simp: e)
qed

lemma rne_of_int [simp]: "rne (of_int k) = k"
  by (simp add: rne_def)

lemma rne_bounds: "\<lfloor>q\<rfloor> \<le> rne q" "rne q \<le> \<lfloor>q\<rfloor> + 1"
  by (simp_all add: rne_def Let_def)

lemma rne_abs_le:
  assumes "\<bar>q\<bar> < of_int N"
  shows "\<bar>rne q\<bar> \<le> N"
proof -
  from assms have "q < of_int N" "of_int (- N) < q" by simp_all
  then have "\<lfloor>q\<rfloor> < N" "- N \<le> \<lfloor>q\<rfloor>"
    by (simp_all add: floor_less_iff le_floor_iff less_imp_le)
  with rne_bounds [of q] show ?thesis by simp
qed

lemma fl_exact:
  assumes y: "y \<noteq> 0" "y = of_int m * 2 powi (e - 52)"
    and m: "\<bar>m\<bar> < 2 ^ 53" and e: "- 1022 \<le> e" and r: "ilog2 y < 1024"
  shows "fl y = Finite y"
proof -
  let ?E = "max (ilog2 y) (- 1022)"
  have "\<bar>y\<bar> = of_int \<bar>m\<bar> * 2 powi (e - 52)"
    by (simp add: y(2) abs_mult)
  also have "\<dots> < of_int (2 ^ 53) * 2 powi (e - 52)"
    using m by (intro mult_strict_right_mono) (simp_all only: of_int_less_iff zero_less_power_int zero_less_numeral)
  also have "\<dots> = 2 powi (e + 1)"
    by (simp add: power_int_diff power_int_add)
  finally have "\<bar>y\<bar> < 2 powi (e + 1)" .
  with ilog2_bounds(1) [OF y(1)] have "ilog2 y < e + 1"
    by (rule pow2_less_imp)
  with e have E: "?E \<le> e" by simp
  have "y / 2 powi (?E - 52) = of_int m * (2 powi (e - 52) / 2 powi (?E - 52))"
    by (simp add: y(2))
  also have "2 powi (e - 52) / (2::rat) powi (?E - 52) = 2 powi (e - ?E)"
    by (simp add: power_int_diff)
  also have "\<dots> = 2 ^ nat (e - ?E)"
    using E by (simp add: power_int_nonneg_exp)
  finally have q: "y / 2 powi (?E - 52) = of_int (m * 2 ^ nat (e - ?E))"
    by simp
  have u0: "(2::rat) powi (?E - 52) \<noteq> 0" by simp
  from q have "y = of_int (m * 2 ^ nat (e - ?E)) * 2 powi (?E - 52)"
    by (simp only: nonzero_divide_eq_eq [OF u0])
  then have "of_int (rne (y / 2 powi (?E - 52))) * 2 powi (?E - 52) = y"
    unfolding q rne_of_int by (rule sym)
  then show ?thesis
    using y(1) r by (simp add: fl_def Let_def)
qed

lemma fl_range:
  assumes "fl x = Finite r"
  shows "r = 0 \<or> (ilog2 r < 1024
     \<and> (\<exists>m e. r = of_int m * 2 powi (e - 52) \<and> \<bar>m\<bar> < 2 ^ 53 \<and> - 1022 \<le> e))"
proof (cases "x = 0")
  case True
  with assms show ?thesis by (simp add: fl_def)
next
  case False
  let ?E = "max (ilog2 x) (- 1022)"
  let ?u = "(2::rat) powi (?E - 52)"
  let ?M = "rne (x / ?u)"
  from assms False have r: "r = of_int ?M * ?u" and fin: "ilog2 r < 1024"
    by (simp_all add: fl_def Let_def split: if_splits)
  have "\<bar>x\<bar> < 2 powi (ilog2 x + 1)" by (rule ilog2_bounds(2) [OF False])
  also have "\<dots> \<le> 2 powi (?E + 1)"
    by (intro power_int_increasing) simp_all
  finally have "\<bar>x\<bar> / ?u < 2 powi (?E + 1) / ?u"
    by (simp add: divide_strict_right_mono)
  also have "2 powi (?E + 1) / ?u = of_int (2 ^ 53)"
    by (simp add: power_int_diff power_int_add)
  finally have "\<bar>x / ?u\<bar> < of_int (2 ^ 53)"
    by (simp add: abs_divide)
  then have M: "\<bar>?M\<bar> \<le> 2 ^ 53" by (rule rne_abs_le)
  show ?thesis
  proof (cases "\<bar>?M\<bar> < 2 ^ 53")
    case True
    have "r = of_int ?M * 2 powi (?E - 52) \<and> \<bar>?M\<bar> < 2 ^ 53 \<and> - 1022 \<le> ?E"
      using r True by simp
    with fin show ?thesis by blast
  next
    case False
    with M have "?M = 2 ^ 53 \<or> ?M = - (2 ^ 53)" by linarith
    then have "r = of_int (?M div 2) * 2 powi (?E + 1 - 52) \<and> \<bar>?M div 2\<bar> < 2 ^ 53
        \<and> - 1022 \<le> ?E + 1"
      by (auto simp: r power_int_diff power_int_add)
    with fin show ?thesis by blast
  qed
qed

lemma fl_idem: "fl x = Finite r \<Longrightarrow> fl r = Finite r"
proof -
  assume "fl x = Finite r"
  from fl_range [OF this] show ?thesis
  proof
    assume "r = 0" then show ?thesis by (simp add: fl_def)
  next
    assume h: "ilog2 r < 1024
     \<and> (\<exists>m e. r = of_int m * 2 powi (e - 52) \<and> \<bar>m\<bar> < 2 ^ 53 \<and> - 1022 \<le> e)"
    then obtain m e where me: "r = of_int m * 2 powi (e - 52)" "\<bar>m\<bar> < 2 ^ 53" "- 1022 \<le> e"
      by blast
    show ?thesis
    proof (cases "r = 0")
      case True then show ?thesis by (simp add: fl_def)
    next
      case False
      from fl_exact [OF False me] h show ?thesis by simp
    qed
  qed
qed

lemma fl_of_int:
  assumes "\<bar>n\<bar> \<le> 2 ^ 53"
  shows "fl (of_int n) = Finite (of_int n)"
proof (cases "n = 0")
  case True then show ?thesis by (simp add: fl_def)
next
  case False
  then have nz: "(of_int n :: rat) \<noteq> 0" by simp
  have "\<bar>of_int n :: rat\<bar> = of_int \<bar>n\<bar>" by simp
  also have "\<dots> \<le> of_int (2 ^ 53)" using assms by (simp only: of_int_le_iff)
  also have "\<dots> < (2::rat) powi 54" by simp
  finally have "\<bar>of_int n :: rat\<bar> < 2 powi 54" .
  with ilog2_bounds(1) [OF nz] have "ilog2 (of_int n) < 54" by (rule pow2_less_imp)
  then have fin: "ilog2 (of_int n) < 1024" by simp
  show ?thesis
  proof (cases "\<bar>n\<bar> < 2 ^ 53")
    case True
    have "(of_int n :: rat) = of_int n * 2 powi (52 - 52)" by simp
    from fl_exact [OF nz this True _ fin] show ?thesis by simp
  next
    case False
    with assms have "n = 2 ^ 53 \<or> n = - (2 ^ 53)" by linarith
    then have "(of_int n :: rat) = of_int (n div 2) * 2 powi (53 - 52)" "\<bar>n div 2\<bar> < 2 ^ 53"
      by auto
    from fl_exact [OF nz this _ fin] show ?thesis by simp
  qed
qed

lemma overflow_iff:
  assumes "r \<noteq> 0"
  shows "1024 \<le> ilog2 r \<longleftrightarrow> 2 powi 1024 \<le> \<bar>r\<bar>"
proof
  assume "1024 \<le> ilog2 r"
  then have "(2::rat) powi 1024 \<le> 2 powi (ilog2 r)"
    by (intro power_int_increasing) simp_all
  with ilog2_bounds(1) [OF assms] show "2 powi 1024 \<le> \<bar>r\<bar>" by simp
next
  assume "2 powi 1024 \<le> \<bar>r\<bar>"
  with ilog2_bounds(2) [OF assms] have "1024 < ilog2 r + 1"
    by (intro pow2_less_imp)
  then show "1024 \<le> ilog2 r" by simp
qed

lemma fl_not_NaN [simp]: "fl x \<noteq> NaN"
  by (simp add: fl_def Let_def)

lemma fl_zero [simp]: "fl 0 = Finite 0"
  by (simp add: fl_def)

lemma dadd_zero_right: "dadd (dadd a b) (Finite 0) = dadd a b"
proof (cases "dadd a b")
  case (Finite r)
  then obtain x where "fl x = Finite r"
    by (cases a; cases b) simp_all
  then have "fl r = Finite r" by (rule fl_idem)
  with Finite show ?thesis by simp
qed simp_all

lemma foldl_dadd_zero:
  "dadd (foldl (\<lambda>s x. dadd s (g x)) (Finite 0) xs) (Finite 0)
     = foldl (\<lambda>s x. dadd s (g x)) (Finite 0) xs"
  by (cases xs rule: rev_cases) (simp_all add: dadd_zero_right)

lemma fl_int4: "int4 q \<Longrightarrow> fl (of_int q) = Finite (of_int q)"
  by (rule fl_of_int) (simp add: int4_def abs_le_iff)

lemma price_or_0_eq:
  "price_or_0 item = (case products item of None \<Rightarrow> Finite 0 | Some p \<Rightarrow> fl (pr_price p))"
  by (auto simp: price_or_0_def falsy_def split: option.splits)

lemma foldl_quantities:
  "\<bar>a\<bar> + (\<Sum>item\<leftarrow>items. \<bar>ci_quantity item\<bar>) \<le> 2 ^ 53 \<Longrightarrow>
     foldl (\<lambda>sum item. dadd sum (fl (of_int (ci_quantity item)))) (Finite (of_int a)) items
       = Finite (of_int (a + (\<Sum>item\<leftarrow>items. ci_quantity item)))"
proof (induction items arbitrary: a)
  case Nil
  then show ?case by simp
next
  case (Cons x items)
  let ?q = "ci_quantity x"
  from Cons.prems have q: "\<bar>?q\<bar> \<le> 2 ^ 53" and s: "\<bar>a + ?q\<bar> \<le> 2 ^ 53"
    and r: "\<bar>a + ?q\<bar> + (\<Sum>item\<leftarrow>items. \<bar>ci_quantity item\<bar>) \<le> 2 ^ 53"
    using sum_list_abs [of "map (\<lambda>item. \<bar>ci_quantity item\<bar>) items"]
    by (simp_all add: comp_def)
  have "dadd (Finite (of_int a)) (fl (of_int ?q)) = Finite (of_int (a + ?q))"
    using fl_of_int [OF q] fl_of_int [OF s] by simp
  with Cons.IH [OF r] show ?case by (simp add: add.assoc)
qed

lemma rne_error: "\<bar>of_int (rne q) - q\<bar> \<le> 1 / 2"
proof -
  have "of_int \<lfloor>q\<rfloor> \<le> q" "q < of_int \<lfloor>q\<rfloor> + 1" by linarith+
  then show ?thesis by (auto simp: rne_def Let_def abs_le_iff)
qed

lemma scaled_diff:
  fixes k u x :: rat
  assumes "0 < u"
  shows "\<bar>k * u - x\<bar> = \<bar>k - x / u\<bar> * u"
proof -
  have "k * u - x = (k - x / u) * u" using assms by (simp add: field_simps)
  then have "\<bar>k * u - x\<bar> = \<bar>k - x / u\<bar> * \<bar>u\<bar>" by (simp only: abs_mult)
  with assms show ?thesis by simp
qed

lemma ilog2_zero: "ilog2 0 = - 2"
  by code_simp

lemma ilog2_le: "x \<noteq> 0 \<Longrightarrow> \<bar>x\<bar> < 2 powi (b + 1) \<Longrightarrow> ilog2 x \<le> b"
  using pow2_less_imp [OF ilog2_bounds(1), of x "b + 1"] by simp

lemma ilog2_ge: "x \<noteq> 0 \<Longrightarrow> 2 powi a \<le> \<bar>x\<bar> \<Longrightarrow> a \<le> ilog2 x"
  using pow2_less_imp [OF _ ilog2_bounds(2), of a x] by simp

lemma fl_error:
  assumes "fl x = Finite r"
  shows "\<bar>r - x\<bar> \<le> 2 powi (max (ilog2 x) (- 1022) - 53)"
proof (cases "x = 0")
  case True
  with assms show ?thesis by simp
next
  case False
  define u :: rat where "u = 2 powi (max (ilog2 x) (- 1022) - 52)"
  have u0: "0 < u" by (simp add: u_def)
  from assms False have r: "r = of_int (rne (x / u)) * u"
    by (simp add: fl_def Let_def u_def split: if_splits)
  have "\<bar>r - x\<bar> = \<bar>of_int (rne (x / u)) - x / u\<bar> * u"
    unfolding r by (rule scaled_diff [OF u0])
  also have "\<dots> \<le> 1 / 2 * u"
    using u0 by (intro mult_right_mono rne_error) simp
  also have "\<dots> = 2 powi (max (ilog2 x) (- 1022) - 53)"
    by (simp add: u_def power_int_diff)
  finally show ?thesis .
qed

lemma fl_finite:
  assumes "ilog2 x \<le> 1022"
  shows "\<exists>r. fl x = Finite r"
proof (cases "x = 0")
  case True
  then show ?thesis by simp
next
  case False
  define E where "E = max (ilog2 x) (- 1022)"
  define u :: rat where "u = 2 powi (E - 52)"
  define r where "r = of_int (rne (x / u)) * u"
  have u0: "0 < u" by (simp add: u_def)
  have E: "E \<le> 1022" using assms by (simp add: E_def)
  have "\<bar>r - x\<bar> = \<bar>of_int (rne (x / u)) - x / u\<bar> * u"
    unfolding r_def by (rule scaled_diff [OF u0])
  also have "\<dots> \<le> 1 / 2 * u"
    using u0 by (intro mult_right_mono rne_error) simp
  finally have d: "\<bar>r - x\<bar> \<le> u / 2" by simp
  have "(2::rat) powi (ilog2 x + 1) \<le> 2 powi 1023"
    using assms by (intro power_int_increasing) simp_all
  with ilog2_bounds(2) [OF False] have x: "\<bar>x\<bar> < 2 powi 1023" by simp
  have "u \<le> 2 powi 1023"
    unfolding u_def using E by (intro power_int_increasing) simp_all
  with d x have "\<bar>r\<bar> < 2 powi 1023 + 2 powi 1023 / 2" by linarith
  also have "\<dots> \<le> (2::rat) powi 1024"
  proof -
    have "(2::rat) powi 1024 = 2 powi 1023 * 2"
      using power_int_add [of "2::rat" 1023 1] by simp
    moreover have "0 < (2::rat) powi 1023" by simp
    ultimately show ?thesis by linarith
  qed
  finally have lt: "\<bar>r\<bar> < 2 powi 1024" .
  have "\<not> 1024 \<le> ilog2 r"
  proof (cases "r = 0")
    case True
    then show ?thesis by (simp add: ilog2_zero)
  next
    case False
    with lt show ?thesis by (simp add: overflow_iff)
  qed
  then show ?thesis
    using False by (simp add: fl_def Let_def E_def [symmetric] u_def [symmetric] r_def [symmetric])
qed

lemma fl_abs:
  assumes "\<bar>x\<bar> < 2 ^ 28"
  shows "\<exists>r. fl x = Finite r \<and> \<bar>r - x\<bar> \<le> 1 / 2 ^ 26"
proof (cases "x = 0")
  case True
  then show ?thesis by simp
next
  case False
  have "\<bar>x\<bar> < 2 powi (27 + 1)" using assms by simp
  then have e: "ilog2 x \<le> 27" by (rule ilog2_le [OF False])
  then obtain r where r: "fl x = Finite r" using fl_finite [of x] by auto
  have "\<bar>r - x\<bar> \<le> 2 powi (max (ilog2 x) (- 1022) - 53)" by (rule fl_error [OF r])
  also have "\<dots> \<le> 2 powi (- 26)"
    using e by (intro power_int_increasing) simp_all
  also have "\<dots> = 1 / 2 ^ 26" by (simp add: power_int_minus field_simps)
  finally show ?thesis using r by blast
qed

lemma fl_rel:
  assumes "1 / 128 \<le> \<bar>x\<bar>" "\<bar>x\<bar> < 2 ^ 28"
  shows "\<exists>r. fl x = Finite r \<and> \<bar>r - x\<bar> \<le> \<bar>x\<bar> / 2 ^ 53"
proof -
  from assms(1) have nz: "x \<noteq> 0" by auto
  have "\<bar>x\<bar> < 2 powi (27 + 1)" using assms(2) by simp
  then have e: "ilog2 x \<le> 27" by (rule ilog2_le [OF nz])
  have "(2::rat) powi (- 7) = 1 / 128" by (simp add: power_int_minus field_simps)
  with assms(1) have "2 powi (- 7) \<le> \<bar>x\<bar>" by simp
  then have e': "- 7 \<le> ilog2 x" by (rule ilog2_ge [OF nz])
  from e obtain r where r: "fl x = Finite r" using fl_finite [of x] by auto
  have m: "max (ilog2 x) (- 1022) = ilog2 x" using e' by simp
  have "\<bar>r - x\<bar> \<le> 2 powi (ilog2 x - 53)" using fl_error [OF r] unfolding m .
  also have "\<dots> = 2 powi (ilog2 x) / 2 ^ 53" by (simp add: power_int_diff)
  also have "\<dots> \<le> \<bar>x\<bar> / 2 ^ 53"
    using ilog2_bounds(1) [OF nz] by (simp add: divide_right_mono)
  finally show ?thesis using r by blast
qed


lemma numeric_10_2_bounds:
  assumes "numeric_10_2 x = Some x" "0 < x"
  shows "1 / 100 \<le> x" "x < 10 ^ 8" "x * 100 = of_int \<lfloor>x * 100 + 1 / 2\<rfloor>"
    "\<bar>\<lfloor>x * 100 + 1 / 2\<rfloor>\<bar> < 10 ^ 10"
proof -
  define c where "c = \<lfloor>x * 100 + 1 / 2\<rfloor>"
  from assms have h: "\<bar>c\<bar> < 10 ^ 10" "of_int c / 100 = x"
    by (simp_all add: numeric_10_2_def Let_def c_def split: if_splits)
  from h(2) have x: "x * 100 = of_int c" by simp
  with assms(2) have "(0::rat) < of_int c" by simp
  then have "1 \<le> c" by simp
  then have "(1::rat) \<le> of_int c" by simp
  with x show "1 / 100 \<le> x" by simp
  from h(1) have "c < 10 ^ 10" by simp
  then have "(of_int c :: rat) < of_int (10 ^ 10)" by (simp only: of_int_less_iff)
  with x show "x < 10 ^ 8" by simp
  from x show "x * 100 = of_int \<lfloor>x * 100 + 1 / 2\<rfloor>" by (simp add: c_def)
  from h(1) show "\<bar>\<lfloor>x * 100 + 1 / 2\<rfloor>\<bar> < 10 ^ 10" by (simp add: c_def)
qed

lemma stored_amount_nonneg: "stored_line item \<Longrightarrow> 0 \<le> line_amount item"
  by (auto simp: stored_line_def line_amount_def split: option.splits)

lemma stored_amounts_nonneg:
  "\<forall>item \<in> set items. stored_line item \<Longrightarrow> 0 \<le> (\<Sum>item\<leftarrow>items. line_amount item)"
  by (intro sum_list_nonneg) (auto simp: stored_amount_nonneg)

text \<open>The double a line adds to the amount is within \<open>2\<^sup>-\<^sup>2\<^sup>5\<close> of the line's exact amount.\<close>

lemma line_js:
  assumes "stored_line item" "line_amount item \<le> 10 ^ 8"
  shows "\<exists>t. dmul (price_or_0 item) (fl (of_int (ci_quantity item))) = Finite t
     \<and> \<bar>t - line_amount item\<bar> \<le> 1 / 2 ^ 25"
proof (cases "products item")
  case None
  from assms(1) have "int4 (ci_quantity item)" by (simp add: stored_line_def)
  then have "fl (of_int (ci_quantity item)) = Finite (of_int (ci_quantity item))" by (rule fl_int4)
  then have "dmul (price_or_0 item) (fl (of_int (ci_quantity item))) = Finite 0"
    by (simp add: price_or_0_def None)
  then show ?thesis by (simp add: line_amount_def None)
next
  case (Some p)
  with assms(1) have pos: "0 < pr_price p"
    and num: "numeric_10_2 (pr_price p) = Some (pr_price p)"
    and q: "0 < ci_quantity item" "int4 (ci_quantity item)"
    by (simp_all add: stored_line_def)
  define pr where "pr = pr_price p"
  define k :: rat where "k = of_int (ci_quantity item)"
  have T: "line_amount item = pr * k" by (simp add: line_amount_def Some pr_def k_def)
  have k1: "1 \<le> k" using q(1) by (simp add: k_def)
  have lo: "1 / 100 \<le> pr" using numeric_10_2_bounds(1) [OF num pos] by (simp add: pr_def)
  have "pr * 1 \<le> pr * k" using k1 lo by (intro mult_left_mono) simp_all
  with assms(2) T have hi: "pr \<le> 10 ^ 8" by simp
  have "1 / 128 \<le> \<bar>pr\<bar>" "\<bar>pr\<bar> < 2 ^ 28" using lo hi by simp_all
  from fl_rel [OF this] obtain P where P: "fl pr = Finite P" "\<bar>P - pr\<bar> \<le> \<bar>pr\<bar> / 2 ^ 53"
    by blast
  have fk: "fl k = Finite k" unfolding k_def by (rule fl_int4 [OF q(2)])
  have "P * k - pr * k = (P - pr) * k" by (simp add: left_diff_distrib)
  then have "\<bar>P * k - pr * k\<bar> = \<bar>P - pr\<bar> * k" using k1 by (simp add: abs_mult)
  also have "\<dots> \<le> \<bar>pr\<bar> / 2 ^ 53 * k" using k1 P(2) by (intro mult_right_mono) simp_all
  also have "\<dots> = pr * k / 2 ^ 53" using lo by simp
  also have "\<dots> \<le> 10 ^ 8 / 2 ^ 53"
  proof -
    have "pr * k \<le> 10 ^ 8" using assms(2) T by simp
    then show ?thesis by (intro divide_right_mono) simp_all
  qed
  also have "\<dots> \<le> 1 / 2 ^ 26" by simp
  finally have d1: "\<bar>P * k - pr * k\<bar> \<le> 1 / 2 ^ 26" .
  have "0 \<le> pr * k" using lo k1 by simp
  moreover have "pr * k \<le> 100000000" using assms(2) T by simp
  moreover have d1n: "\<bar>P * k - pr * k\<bar> \<le> 1 / 67108864" using d1 by simp
  ultimately have "\<bar>P * k\<bar> < 268435456" by linarith
  then have "\<bar>P * k\<bar> < 2 ^ 28" by simp
  from fl_abs [OF this] obtain t where t: "fl (P * k) = Finite t" "\<bar>t - P * k\<bar> \<le> 1 / 2 ^ 26"
    by blast
  have m: "dmul (price_or_0 item) (fl (of_int (ci_quantity item))) = Finite t"
    using P(1) fk t(1) by (simp add: price_or_0_eq Some pr_def k_def)
  have "\<bar>t - P * k\<bar> \<le> 1 / 67108864" using t(2) by simp
  with d1n have "\<bar>t - pr * k\<bar> \<le> 1 / 33554432" by linarith
  then have "\<bar>t - pr * k\<bar> \<le> 1 / 2 ^ 25" by simp
  with m T show ?thesis by simp
qed

text \<open>The sum in doubles, from a start \<open>a\<close> near \<open>A\<close>, ends within \<open>2\<^sup>-\<^sup>2\<^sup>4\<close> per line of the exact
  sum, as long as that sum is at most \<open>10\<^sup>8\<close>.\<close>

lemma amounts_error:
  assumes "\<forall>item \<in> set items. stored_line item" "0 \<le> A"
    and "A + (\<Sum>item\<leftarrow>items. line_amount item) \<le> 10 ^ 8"
    and "\<bar>a - A\<bar> + of_nat (length items) / 2 ^ 24 \<le> 1"
  shows "\<exists>s. foldl (\<lambda>sum item. dadd sum (dmul (price_or_0 item) (fl (of_int (ci_quantity item)))))
              (Finite a) items = Finite s
     \<and> \<bar>s - (A + (\<Sum>item\<leftarrow>items. line_amount item))\<bar> \<le> \<bar>a - A\<bar> + of_nat (length items) / 2 ^ 24"
  using assms
proof (induction items arbitrary: a A)
  case Nil
  then show ?case by simp
next
  case (Cons x items)
  define T where "T = line_amount x"
  define R where "R = (\<Sum>item\<leftarrow>items. line_amount item)"
  define n :: rat where "n = of_nat (length items)"
  have sx: "stored_line x" and sr: "\<forall>item \<in> set items. stored_line item"
    using Cons.prems(1) by simp_all
  have R0: "0 \<le> R" unfolding R_def by (rule stored_amounts_nonneg [OF sr])
  have T0: "0 \<le> T" unfolding T_def by (rule stored_amount_nonneg [OF sx])
  have n0: "0 \<le> n" by (simp add: n_def)
  have tot: "A + (T + R) \<le> 10 ^ 8" using Cons.prems(3) by (simp add: T_def R_def)
  have bud: "\<bar>a - A\<bar> + (n + 1) / 2 ^ 24 \<le> 1"
    using Cons.prems(4) by (simp add: n_def add.commute)
  have A0: "0 \<le> A" by (rule Cons.prems(2))
  have "T \<le> 10 ^ 8" using tot A0 R0 by linarith
  from line_js [OF sx this [unfolded T_def]]
  obtain t where m: "dmul (price_or_0 x) (fl (of_int (ci_quantity x))) = Finite t"
    and dt: "\<bar>t - T\<bar> \<le> 1 / 2 ^ 25"
    by (auto simp: T_def)
  have "0 \<le> (n + 1) / 2 ^ 24" using n0 by simp
  with bud have "\<bar>a - A\<bar> \<le> 1" by linarith
  moreover have "\<bar>t - T\<bar> \<le> 1 / 33554432" using dt by simp
  moreover have "A + (T + R) \<le> 100000000" using tot by simp
  ultimately have "\<bar>a + t\<bar> < 268435456" using A0 R0 T0 by linarith
  then have "\<bar>a + t\<bar> < 2 ^ 28" by simp
  from fl_abs [OF this] obtain a' where a': "fl (a + t) = Finite a'" "\<bar>a' - (a + t)\<bar> \<le> 1 / 2 ^ 26"
    by blast
  have "\<bar>a' - (a + t)\<bar> \<le> 1 / 67108864" using a'(2) by simp
  moreover have "\<bar>t - T\<bar> \<le> 1 / 33554432" using dt by simp
  ultimately have "\<bar>a' - (A + T)\<bar> \<le> \<bar>a - A\<bar> + 1 / 16777216" by linarith
  then have step: "\<bar>a' - (A + T)\<bar> \<le> \<bar>a - A\<bar> + 1 / 2 ^ 24" by simp
  have "\<exists>s. foldl (\<lambda>sum item. dadd sum (dmul (price_or_0 item) (fl (of_int (ci_quantity item)))))
              (Finite a') items = Finite s
     \<and> \<bar>s - (A + T + (\<Sum>item\<leftarrow>items. line_amount item))\<bar>
         \<le> \<bar>a' - (A + T)\<bar> + of_nat (length items) / 2 ^ 24"
  proof (rule Cons.IH [OF sr])
    show "0 \<le> A + T" using A0 T0 by simp
    show "A + T + (\<Sum>item\<leftarrow>items. line_amount item) \<le> 10 ^ 8" using tot by (simp add: R_def)
    show "\<bar>a' - (A + T)\<bar> + of_nat (length items) / 2 ^ 24 \<le> 1"
      using step bud by (simp add: n_def add_divide_distrib)
  qed
  then obtain s where s: "foldl (\<lambda>sum item. dadd sum (dmul (price_or_0 item) (fl (of_int (ci_quantity item)))))
              (Finite a') items = Finite s"
    and ds: "\<bar>s - (A + T + R)\<bar> \<le> \<bar>a' - (A + T)\<bar> + n / 2 ^ 24"
    by (auto simp: R_def n_def)
  have r: "foldl (\<lambda>sum item. dadd sum (dmul (price_or_0 item) (fl (of_int (ci_quantity item)))))
              (Finite a) (x # items) = Finite s"
    by (simp add: m a'(1) s)
  have fin: "\<bar>s - (A + (T + R))\<bar> \<le> \<bar>a - A\<bar> + (n + 1) / 2 ^ 24"
    using ds step by (simp add: add_divide_distrib add.assoc)
  have len: "(of_nat (length (x # items)) :: rat) = n + 1" by (simp add: n_def)
  have tr: "(\<Sum>item\<leftarrow>x # items. line_amount item) = T + R" by (simp add: T_def R_def)
  show ?case unfolding len tr using r fin by blast
qed

section \<open>Cart totals\<close>

text \<open>
  Claim C10, as amended. \<^verbatim>\<open>totalAmount\<close> is the sum, taken from left to right in
  doubles (every product and every addition rounded to the nearest double, so not
  always the exact sum), over the cart lines of the product's price, \<open>0\<close> when the
  joined product is absent, times the quantity; \<^verbatim>\<open>totalItems\<close> is the sum in doubles of
  all quantities, the exact sum as long as the quantities add up to at most \<open>2\<^sup>5\<^sup>3\<close>. A
  line whose product is missing (its quantity within the column) adds its full quantity
  to the item count and leaves the amount as it is without the line. For lines as the
  store returns them, \<^verbatim>\<open>totalAmount\<close> differs from the exact sum of price (or \<open>0\<close>) times
  quantity by at most \<open>2\<^sup>-\<^sup>2\<^sup>4\<close> per line, while that sum is at most \<open>10\<^sup>8\<close>.
\<close>

theorem cart_totals:
  "totalAmount items =
     foldl dadd (Finite 0)
       (map (\<lambda>item. dmul (case products item of None \<Rightarrow> Finite 0 | Some p \<Rightarrow> fl (pr_price p))
                         (fl (of_int (ci_quantity item)))) items)
   \<and> totalItems items =
       foldl dadd (Finite 0) (map (\<lambda>item. fl (of_int (ci_quantity item))) items)
   \<and> ((\<Sum>item\<leftarrow>items. \<bar>ci_quantity item\<bar>) \<le> 2 ^ 53 \<longrightarrow>
        totalItems items = Finite (of_int (\<Sum>item\<leftarrow>items. ci_quantity item)))
   \<and> (products x = None \<and> int4 (ci_quantity x) \<longrightarrow>
        totalAmount (items @ [x] @ rest) = totalAmount (items @ rest)
        \<and> totalItems (items @ [x]) = dadd (totalItems items) (Finite (of_int (ci_quantity x))))
   \<and> ((\<forall>item \<in> set items. stored_line item) \<and> (\<Sum>item\<leftarrow>items. line_amount item) \<le> 10 ^ 8
        \<and> length items \<le> 2 ^ 24 \<longrightarrow>
        (\<exists>s. totalAmount items = Finite s
           \<and> \<bar>s - (\<Sum>item\<leftarrow>items. line_amount item)\<bar> \<le> of_nat (length items) / 2 ^ 24))"
proof (intro conjI impI)
  show "totalAmount items =
     foldl dadd (Finite 0)
       (map (\<lambda>item. dmul (case products item of None \<Rightarrow> Finite 0 | Some p \<Rightarrow> fl (pr_price p))
                         (fl (of_int (ci_quantity item)))) items)"
    by (simp add: totalAmount_def price_or_0_eq foldl_map)
  show "totalItems items =
       foldl dadd (Finite 0) (map (\<lambda>item. fl (of_int (ci_quantity item))) items)"
    by (simp add: totalItems_def foldl_map)
next
  assume "(\<Sum>item\<leftarrow>items. \<bar>ci_quantity item\<bar>) \<le> 2 ^ 53"
  then have "\<bar>0\<bar> + (\<Sum>item\<leftarrow>items. \<bar>ci_quantity item\<bar>) \<le> 2 ^ 53" by simp
  from foldl_quantities [OF this]
  show "totalItems items = Finite (of_int (\<Sum>item\<leftarrow>items. ci_quantity item))"
    by (simp add: totalItems_def)
next
  assume h: "products x = None \<and> int4 (ci_quantity x)"
  then have q: "fl (of_int (ci_quantity x)) = Finite (of_int (ci_quantity x))"
    by (simp add: fl_int4)
  have t: "dmul (price_or_0 x) (fl (of_int (ci_quantity x))) = Finite 0"
    using h by (simp add: price_or_0_def q)
  have "totalAmount (items @ [x]) = totalAmount items"
    by (simp add: totalAmount_def t foldl_dadd_zero)
  then show "totalAmount (items @ [x] @ rest) = totalAmount (items @ rest)"
    by (simp add: totalAmount_def)
  show "totalItems (items @ [x]) = dadd (totalItems items) (Finite (of_int (ci_quantity x)))"
    by (simp add: totalItems_def q)
next
  assume h: "(\<forall>item \<in> set items. stored_line item) \<and> (\<Sum>item\<leftarrow>items. line_amount item) \<le> 10 ^ 8
        \<and> length items \<le> 2 ^ 24"
  then have st: "\<forall>item \<in> set items. stored_line item" by simp
  from h have "length items \<le> 16777216" by simp
  then have "(of_nat (length items) :: rat) \<le> of_nat 16777216" by (simp only: of_nat_le_iff)
  then have n: "(of_nat (length items) :: rat) / 2 ^ 24 \<le> 1" by simp
  have "\<exists>s. foldl (\<lambda>sum item. dadd sum (dmul (price_or_0 item) (fl (of_int (ci_quantity item)))))
              (Finite 0) items = Finite s
     \<and> \<bar>s - (0 + (\<Sum>item\<leftarrow>items. line_amount item))\<bar> \<le> \<bar>0 - 0 :: rat\<bar> + of_nat (length items) / 2 ^ 24"
    using h n by (intro amounts_error [OF st]) simp_all
  then show "\<exists>s. totalAmount items = Finite s
           \<and> \<bar>s - (\<Sum>item\<leftarrow>items. line_amount item)\<bar> \<le> of_nat (length items) / 2 ^ 24"
    by (simp add: totalAmount_def)
qed

theorem cart_totals_witness:
  "products (line 52 lamp 2) = None \<and> int4 (ci_quantity (line 52 lamp 2))
   \<and> totalAmount ([line 51 headphones 1] @ [line 52 lamp 2] @ [line 53 tshirt 2])
       = totalAmount ([line 51 headphones 1] @ [line 53 tshirt 2])
   \<and> totalAmount ([line 51 headphones 1] @ [line 53 tshirt 2])
       = Finite (8795037491045335 / 35184372088832)
   \<and> totalItems ([line 51 headphones 1] @ [line 52 lamp 2]) = Finite 3
   \<and> list_all stored_line [line 51 headphones 1, line 52 lamp 2, line 53 tshirt 2]
   \<and> (\<Sum>item\<leftarrow>[line 51 headphones 1, line 52 lamp 2, line 53 tshirt 2]. line_amount item)
       = 24997 / 100
   \<and> totalAmount [line 51 headphones 1, line 52 lamp 2, line 53 tshirt 2]
       = Finite (8795037491045335 / 35184372088832)
   \<and> \<bar>8795037491045335 / 35184372088832 - 24997 / 100 :: rat\<bar> \<le> 3 / 2 ^ 24"
proof -
  have h: "products (line 52 lamp 2) = None \<and> int4 (ci_quantity (line 52 lamp 2))"
    by code_simp
  have e: "totalAmount ([line 51 headphones 1] @ [line 53 tshirt 2])
       = Finite (8795037491045335 / 35184372088832)"
    "dadd (totalItems [line 51 headphones 1]) (Finite (of_int (ci_quantity (line 52 lamp 2))))
       = Finite 3"
    by code_simp+
  from cart_totals [of "[line 51 headphones 1]" "line 52 lamp 2" "[line 53 tshirt 2]"] h e
  have one: "totalAmount ([line 51 headphones 1] @ [line 52 lamp 2] @ [line 53 tshirt 2])
       = totalAmount ([line 51 headphones 1] @ [line 53 tshirt 2])
   \<and> totalItems ([line 51 headphones 1] @ [line 52 lamp 2]) = Finite 3"
    by simp
  have g: "\<forall>item \<in> set [line 51 headphones 1, line 52 lamp 2, line 53 tshirt 2]. stored_line item"
    "(\<Sum>item\<leftarrow>[line 51 headphones 1, line 52 lamp 2, line 53 tshirt 2]. line_amount item)
       = 24997 / 100"
    "totalAmount [line 51 headphones 1, line 52 lamp 2, line 53 tshirt 2]
       = Finite (8795037491045335 / 35184372088832)"
    by code_simp+
  have g': "(\<forall>item \<in> set [line 51 headphones 1, line 52 lamp 2, line 53 tshirt 2]. stored_line item)
      \<and> (\<Sum>item\<leftarrow>[line 51 headphones 1, line 52 lamp 2, line 53 tshirt 2]. line_amount item) \<le> 10 ^ 8
      \<and> length [line 51 headphones 1, line 52 lamp 2, line 53 tshirt 2] \<le> 2 ^ 24"
    using g(1) unfolding g(2) by simp
  from cart_totals [of "[line 51 headphones 1, line 52 lamp 2, line 53 tshirt 2]" x rest,
      THEN conjunct2, THEN conjunct2, THEN conjunct2, THEN conjunct2, THEN mp, OF g']
  have two: "\<bar>8795037491045335 / 35184372088832 - 24997 / 100 :: rat\<bar> \<le> 3 / 2 ^ 24"
    unfolding g(2) g(3) by simp
  from h e one g two show ?thesis by (simp add: list_all_iff)
qed

theorem cart_totals_counterexample:
  "totalAmount [line 51 headphones 1, line 52 tshirt 1] = Finite (494736252034089 / 2199023255552)
   \<and> (494736252034089 / 2199023255552 :: rat) \<noteq> 19999 / 100 * 1 + 2499 / 100 * 1
   \<and> totalAmount
        [line 61 (headphones\<lparr>pr_price := 477 / 100\<rparr>) 1,
         line 62 (headphones\<lparr>pr_price := 2883 / 100\<rparr>) 1,
         line 63 (headphones\<lparr>pr_price := 1640 / 100\<rparr>) 1]
       = Finite (7036874417766399 / 140737488355328)
   \<and> (7036874417766399 / 140737488355328 :: rat) < 477 / 100 * 1 + 2883 / 100 * 1 + 1640 / 100 * 1"
  by code_simp

section \<open>Order placement: a line without its product\<close>

lemma reduce_total_Inl:
  "reduce_total acc items = Inl e
     \<longleftrightarrow> e = TypeError \<and> (\<exists>item \<in> set items. products item = None)"
  by (induction items arbitrary: acc) (auto split: option.splits)

lemma reduce_total_Inr:
  "(\<exists>t. reduce_total acc items = Inr t) \<longleftrightarrow> (\<forall>item \<in> set items. products item \<noteq> None)"
  by (induction items arbitrary: acc) (auto split: option.splits)

lemma map_order_items_Inl:
  "map_order_items oid items = Inl e
     \<longleftrightarrow> e = TypeError \<and> (\<exists>item \<in> set items. products item = None)"
  by (induction items) (auto split: option.splits sum.splits)

text \<open>
  Claim C9. \<^verbatim>\<open>createOrder\<close> reads \<^verbatim>\<open>item.products.price\<close> unguarded, in the total and
  in the order-line rows: both computations raise \<^verbatim>\<open>TypeError\<close> as soon as one line
  lacks its product. The call then ends with that \<^verbatim>\<open>TypeError\<close> before any request is
  made, and it ends with a \<^verbatim>\<open>TypeError\<close> in no other case: the operation is defined
  exactly when every line carries its product.
\<close>

theorem createOrder_TypeError:
  "(fst (createOrder w userId items addr) = Inl TypeError
      \<longleftrightarrow> (\<exists>item \<in> set items. products item = None))
   \<and> ((\<exists>item \<in> set items. products item = None)
      \<longrightarrow> reduce_total 0 items = Inl TypeError
          \<and> map_order_items oid items = Inl TypeError
          \<and> createOrder w userId items addr = (Inl TypeError, w))"
proof -
  have a: "reduce_total 0 items = Inl TypeError
      \<and> map_order_items oid items = Inl TypeError
      \<and> createOrder w userId items addr = (Inl TypeError, w)"
    if "\<exists>item \<in> set items. products item = None"
  proof -
    from that have "reduce_total 0 items = Inl TypeError"
      by (simp add: reduce_total_Inl)
    with that show ?thesis
      by (simp add: createOrder_def map_order_items_Inl)
  qed
  have b: "fst (createOrder w userId items addr) \<noteq> Inl TypeError"
    if h: "\<forall>item \<in> set items. products item \<noteq> None"
  proof -
    from h obtain t where t: "reduce_total 0 items = Inr t"
      using reduce_total_Inr [of 0 items] by blast
    show ?thesis
      using h
      by (auto simp: createOrder_def t map_order_items_Inl split: prod.splits sum.splits)
  qed
  show ?thesis using a b by (metis fst_conv)
qed

theorem createOrder_TypeError_witness:
  "(\<exists>item \<in> set [line 51 headphones 1, line 52 lamp 2]. products item = None)
   \<and> createOrder shop shopper [line 51 headphones 1, line 52 lamp 2] home
       = (Inl TypeError, shop)"
  using createOrder_TypeError [of shop shopper "[line 51 headphones 1, line 52 lamp 2]" home 0]
  by (simp add: sample_defs)

section \<open>Order placement: the order as stored\<close>


lemma next_request_ok:
  assumes "no_faults (Suc n) w"
  shows "next_request w = (False, w\<lparr>faults := tl (faults w)\<rparr>)"
    and "no_faults n (w\<lparr>faults := tl (faults w)\<rparr>)"
  using assms by (cases "faults w"; simp add: next_request_def no_faults_def)+









lemma console_error_frame [simp]:
  "tbl_orders (console_error m w) = tbl_orders w"
  "tbl_order_items (console_error m w) = tbl_order_items w"
  "tbl_cart_items (console_error m w) = tbl_cart_items w"
  "tbl_wishlist_items (console_error m w) = tbl_wishlist_items w"
  "tbl_products (console_error m w) = tbl_products w"
  "user (console_error m w) = user w"
  "cartItems (console_error m w) = cartItems w"
  "next_uuid (console_error m w) = next_uuid w"
  "faults (console_error m w) = faults w"
  "console (console_error m w) = console w @ [m]"
  by (simp_all add: console_error_def)









lemma filter_none: "\<forall>x \<in> set xs. \<not> P x \<Longrightarrow> filter P xs = []"
  by (induction xs) simp_all











section \<open>Order placement: the empty cart\<close>

lemma numeric_zero: "numeric_10_2 0 = Some 0"
  by code_simp

text \<open>
  Claim C2, as amended. \<^verbatim>\<open>createOrder\<close> has no check for an empty cart: with no lines
  the total is \<open>0\<close>, the order insert is attempted and the store does not accept it
  (\<^verbatim>\<open>CHECK (total_amount > 0)\<close>, when the request arrives and the user is the session's).
  The call ends with the store's error, which the taxonomy files under \<^verbatim>\<open>StoreError\<close>,
  and no order, order line or cart line is created, changed or removed.
\<close>

theorem createOrder_empty_cart:
  "\<exists>e. fst (createOrder w userId [] addr) = Inl (PostgrestError e)
      \<and> kind_of (PostgrestError e) = Some StoreError
      \<and> (no_faults 1 w \<and> user w = Some userId \<longrightarrow> e = check_violation)
      \<and> tbl_orders (snd (createOrder w userId [] addr)) = tbl_orders w
      \<and> tbl_order_items (snd (createOrder w userId [] addr)) = tbl_order_items w
      \<and> tbl_cart_items (snd (createOrder w userId [] addr)) = tbl_cart_items w"
proof -
  have nr: "\<not> (faults w \<noteq> [] \<and> hd (faults w))" if "no_faults 1 w"
    using that by (cases "faults w") (simp_all add: no_faults_def)
  show ?thesis
  proof (cases "faults w \<noteq> [] \<and> hd (faults w)")
    case True
    with nr have "\<not> no_faults 1 w" by blast
    with True show ?thesis
      by (simp add: createOrder_def insert_orders_def next_request_def numeric_zero kind_of_def
          owns_def console_error_def)
  next
    case False
    then show ?thesis
      by (auto simp: createOrder_def insert_orders_def next_request_def numeric_zero kind_of_def
          owns_def console_error_def)
  qed
qed


theorem createOrder_empty_cart_counterexample:
  "fst (createOrder shop shopper [] home) = Inl (PostgrestError check_violation)
   \<and> kind_of (PostgrestError check_violation) \<noteq> Some EmptyCartError"
  by (simp add: createOrder_def insert_orders_def next_request_def numeric_zero kind_of_def
      owns_def shop_def)

theorem createOrder_empty_cart_witness:
  "no_faults 1 shop \<and> user shop = Some shopper
   \<and> fst (createOrder shop shopper [] home) = Inl (PostgrestError check_violation)
   \<and> tbl_orders (snd (createOrder shop shopper [] home)) = []"
proof -
  have h: "no_faults 1 shop \<and> user shop = Some shopper" "tbl_orders shop = []"
    by (simp_all add: shop_def no_faults_def)
  from createOrder_empty_cart [of shop shopper home] h show ?thesis
    by auto
qed

section \<open>Order placement: clearing the cart\<close>

lemma insert_orders_Inr:
  assumes "insert_orders w uid t st addr = (Inr ord, w1)"
  shows "user w = Some uid" "tbl_orders w1 = tbl_orders w @ [ord]"
    "tbl_cart_items w1 = tbl_cart_items w" "console w1 = console w" "user w1 = user w"
  using assms
  by (auto simp: insert_orders_def next_request_def Let_def owns_def
      split: if_splits option.splits)

lemma insert_order_items_Inr:
  assumes "insert_order_items w1 vs = (Inr u, w2)"
  shows "tbl_orders w2 = tbl_orders w1" "tbl_cart_items w2 = tbl_cart_items w1"
    "console w2 = console w1" "user w2 = user w1"
  using assms
  by (auto simp: insert_order_items_def next_request_def split: if_splits sum.splits)

text \<open>
  Claim C3. Whenever \<^verbatim>\<open>createOrder\<close> has stored the order and its lines, it asks the store
  to delete the cart lines of the user and returns the order's identifier whatever the
  answer, the order and its lines staying as stored. If the request arrives, every cart
  line of the user is gone and nothing is logged; if it fails, the cart is as before and
  the failure is logged, not raised.
\<close>

theorem createOrder_clears_cart:
  assumes tot: "reduce_total 0 items = Inr t"
    and ins: "insert_orders w userId t pending addr = (Inr ord, w1)"
    and rows: "map_order_items (or_id ord) items = Inr vs"
    and lines: "insert_order_items w1 vs = (Inr (), w2)"
  shows "fst (createOrder w userId items addr) = Inr (or_id ord)
    \<and> tbl_orders (snd (createOrder w userId items addr)) = tbl_orders w @ [ord]
    \<and> tbl_order_items (snd (createOrder w userId items addr)) = tbl_order_items w2
    \<and> (\<not> fst (next_request w2) \<longrightarrow>
          tbl_cart_items (snd (createOrder w userId items addr))
            = filter (\<lambda>r. ci_user_id r \<noteq> userId) (tbl_cart_items w)
          \<and> console (snd (createOrder w userId items addr)) = console w)
    \<and> (fst (next_request w2) \<longrightarrow>
          tbl_cart_items (snd (createOrder w userId items addr)) = tbl_cart_items w
          \<and> console (snd (createOrder w userId items addr))
              = console w @ [''Error clearing cart:''])"
proof -
  note i1 = insert_orders_Inr [OF ins]
  note i2 = insert_order_items_Inr [OF lines]
  have co: "createOrder w userId items addr =
     (case delete_cart_items w2 (\<lambda>r. ci_user_id r = userId) of
        (Inl cartError, w3) \<Rightarrow> (Inr (or_id ord), console_error ''Error clearing cart:'' w3)
      | (Inr _, w3) \<Rightarrow> (Inr (or_id ord), w3))"
    by (simp add: createOrder_def tot ins rows lines)
  have u: "user w2 = Some userId" by (simp add: i1 i2)
  have c: "tbl_cart_items w2 = tbl_cart_items w" "console w2 = console w"
    "tbl_orders w2 = tbl_orders w @ [ord]"
    by (simp_all add: i1 i2)
  show ?thesis
  proof (cases "fst (next_request w2)")
    case True
    then have d: "delete_cart_items w2 (\<lambda>r. ci_user_id r = userId)
        = (Inl network_failure, snd (next_request w2))"
      by (simp add: delete_cart_items_def split_beta)
    show ?thesis using True
      by (simp add: co d c) (simp add: next_request_def c)
  next
    case False
    then have d: "delete_cart_items w2 (\<lambda>r. ci_user_id r = userId)
        = (Inr (), (snd (next_request w2))\<lparr>tbl_cart_items :=
             filter (\<lambda>r. \<not> (ci_user_id r = userId \<and> owns (snd (next_request w2)) (ci_user_id r)))
               (tbl_cart_items (snd (next_request w2)))\<rparr>)"
      by (simp add: delete_cart_items_def split_beta)
    show ?thesis using False
      by (simp add: co d) (simp add: next_request_def c owns_def u)
  qed
qed


theorem createOrder_clears_cart_witness:
  "fst (createOrder flaky_shop shopper (cartItems flaky_shop) home) = Inr 100
   \<and> tbl_cart_items (snd (createOrder flaky_shop shopper (cartItems flaky_shop) home))
       = tbl_cart_items flaky_shop
   \<and> console (snd (createOrder flaky_shop shopper (cartItems flaky_shop) home))
       = [''Error clearing cart:'']
   \<and> fst (createOrder cart_shop shopper (cartItems cart_shop) home) = Inr 100
   \<and> tbl_cart_items (snd (createOrder cart_shop shopper (cartItems cart_shop) home)) = []
   \<and> console (snd (createOrder cart_shop shopper (cartItems cart_shop) home)) = []"
proof -
  define ord where "ord = \<lparr>or_id = 100, or_user_id = shopper, total_amount = 24997 / 100,
     status = pending, shipping_addr = home\<rparr>"
  define w1 where "w1 = snd (insert_orders flaky_shop shopper (24997 / 100) pending home)"
  define vs where "vs = map (wanted 100) (cartItems flaky_shop)"
  define w2 where "w2 = snd (insert_order_items w1 vs)"
  define v1 where "v1 = snd (insert_orders cart_shop shopper (24997 / 100) pending home)"
  define v2 where "v2 = snd (insert_order_items v1 vs)"
  have a1: "reduce_total 0 (cartItems flaky_shop) = Inr (24997 / 100)" by code_simp
  have a2: "insert_orders flaky_shop shopper (24997 / 100) pending home = (Inr ord, w1)"
    unfolding ord_def w1_def by code_simp
  have a3: "map_order_items (or_id ord) (cartItems flaky_shop) = Inr vs"
    unfolding ord_def vs_def by code_simp
  have a4: "insert_order_items w1 vs = (Inr (), w2)"
    unfolding w1_def vs_def w2_def by code_simp
  have a5: "fst (next_request w2)" "tbl_cart_items flaky_shop = tbl_cart_items flaky_shop"
    "console flaky_shop = []" "or_id ord = 100"
    unfolding w1_def vs_def w2_def ord_def by code_simp+
  have b1: "reduce_total 0 (cartItems cart_shop) = Inr (24997 / 100)" by code_simp
  have b2: "insert_orders cart_shop shopper (24997 / 100) pending home = (Inr ord, v1)"
    unfolding ord_def v1_def by code_simp
  have b3: "map_order_items (or_id ord) (cartItems cart_shop) = Inr vs"
    unfolding ord_def vs_def by code_simp
  have b4: "insert_order_items v1 vs = (Inr (), v2)"
    unfolding v1_def vs_def v2_def by code_simp
  have b5: "\<not> fst (next_request v2)"
    "filter (\<lambda>r. ci_user_id r \<noteq> shopper) (tbl_cart_items cart_shop) = []"
    "console cart_shop = []"
    unfolding v1_def vs_def v2_def by code_simp+
  show ?thesis
    using createOrder_clears_cart [OF a1 a2 a3 a4] createOrder_clears_cart [OF b1 b2 b3 b4] a5 b5
    by simp
qed


section \<open>The cart: changing a quantity\<close>

lemma cart_view_frame [simp]:
  "cart_view (w\<lparr>faults := fs\<rparr>) u = cart_view w u"
  "cart_view (w\<lparr>loading := b\<rparr>) u = cart_view w u"
  "cart_view (w\<lparr>console := c\<rparr>) u = cart_view w u"
  "cart_view (w\<lparr>cartItems := cs\<rparr>) u = cart_view w u"
  "cart_view (w\<lparr>next_uuid := k\<rparr>) u = cart_view w u"
  by (simp_all add: cart_view_def owns_def join_product_def visible_product_def)

lemma loadCartItems_frame [simp]:
  "tbl_cart_items (loadCartItems w) = tbl_cart_items w"
  "tbl_products (loadCartItems w) = tbl_products w"
  "user (loadCartItems w) = user w"
  "next_uuid (loadCartItems w) = next_uuid w"
  by (simp_all add: loadCartItems_def select_cart_items_def next_request_def console_error_def
      split: option.splits)













section \<open>The cart: adding a product\<close>










lemma next_request_frame [simp]:
  "tbl_cart_items (snd (next_request w)) = tbl_cart_items w"
  "tbl_products (snd (next_request w)) = tbl_products w"
  "tbl_wishlist_items (snd (next_request w)) = tbl_wishlist_items w"
  "user (snd (next_request w)) = user w"
  "next_uuid (snd (next_request w)) = next_uuid w"
  "console (snd (next_request w)) = console w"
  by (simp_all add: next_request_def)










text \<open>
  Claim C6, as amended. \<^verbatim>\<open>addToCart\<close> does not validate the quantity. For \<open>qty < 1\<close> and
  a loaded cart with no line for the product, the call fails and no cart line is
  created or changed: the insert is sent and the store does not accept it
  (\<^verbatim>\<open>CHECK (quantity > 0)\<close>, when the request arrives and the quantity fits the column).
\<close>

theorem addToCart_nonpositive:
  assumes qty: "qty < 1"
    and none: "find (\<lambda>item. ci_product_id item = p) (cartItems w) = None"
  shows "(\<exists>e. fst (addToCart w p qty) = Inl e)
    \<and> tbl_cart_items (snd (addToCart w p qty)) = tbl_cart_items w
    \<and> cartItems (snd (addToCart w p qty)) = cartItems w
    \<and> (user w \<noteq> None \<and> no_faults 1 w \<and> int4 qty \<longrightarrow>
          fst (addToCart w p qty) = Inl (PostgrestError check_violation))"
proof (cases "user w")
  case None
  then show ?thesis by (simp add: addToCart_def)
next
  case (Some u)
  have q: "\<not> 0 < qty" using qty by simp
  have nr: "\<not> (faults w \<noteq> [] \<and> hd (faults w))" if "no_faults 1 w"
    using that by (cases "faults w") (simp_all add: no_faults_def)
  have i: "(\<exists>e. fst (insert_cart_items w u p qty) = Inl e)
      \<and> tbl_cart_items (snd (insert_cart_items w u p qty)) = tbl_cart_items w
      \<and> cartItems (snd (insert_cart_items w u p qty)) = cartItems w
      \<and> (no_faults 1 w \<and> int4 qty \<longrightarrow>
            fst (insert_cart_items w u p qty) = Inl check_violation)"
    using q nr Some
    by (auto simp: insert_cart_items_def next_request_def owns_def)
  obtain res w1 where r: "insert_cart_items w u p qty = (res, w1)"
    by (cases "insert_cart_items w u p qty")
  with i obtain e where e: "res = Inl e" by auto
  from i r e show ?thesis
    by (simp add: addToCart_def Some none console_error_def)
qed

theorem addToCart_nonpositive_witness:
  "(- 1 :: int) < 1
   \<and> find (\<lambda>item. ci_product_id item = 2) (cartItems shop) = None
   \<and> fst (addToCart shop 2 (- 1)) = Inl (PostgrestError check_violation)
   \<and> tbl_cart_items (snd (addToCart shop 2 (- 1))) = []"
proof -
  have h: "(- 1 :: int) < 1" "find (\<lambda>item. ci_product_id item = 2) (cartItems shop) = None"
    by code_simp+
  have g: "user shop \<noteq> None \<and> no_faults 1 shop \<and> int4 (- 1)" "tbl_cart_items shop = []"
    by code_simp+
  from addToCart_nonpositive [OF h] g h show ?thesis by simp
qed

theorem addToCart_nonpositive_counterexample:
  "fst (addToCart cart_shop 2 (- 1)) = Inr ()
   \<and> tbl_cart_items cart_shop = [row 51 headphones 1, row 52 tshirt 2]
   \<and> tbl_cart_items (snd (addToCart cart_shop 2 (- 1))) = [row 51 headphones 1, row 52 tshirt 1]
   \<and> fst (addToCart cart_shop 1 (- 1)) = Inr ()
   \<and> tbl_cart_items (snd (addToCart cart_shop 1 (- 1))) = [row 52 tshirt 2]"
  by code_simp


section \<open>The wishlist\<close>

lemma one_by_key:
  "distinct (map k xs) \<Longrightarrow> x \<in> set xs \<Longrightarrow> filter (\<lambda>y. k y = k x) xs = [x]"
proof (induction xs)
  case Nil
  then show ?case by simp
next
  case (Cons a xs)
  show ?case
  proof (cases "a = x")
    case True
    with Cons.prems have "\<forall>y \<in> set xs. k y \<noteq> k x" by (auto simp: image_iff)
    then have "filter (\<lambda>y. k y = k x) xs = []" by (intro filter_none) simp
    with True show ?thesis by simp
  next
    case False
    with Cons.prems have "x \<in> set xs" "k a \<noteq> k x" by (auto simp: image_iff)
    with Cons show ?thesis by simp
  qed
qed

lemma addToWishlist_present:
  assumes "no_faults (Suc n) w" "user w = Some u" "(u, p) \<in> wish_key ` set (tbl_wishlist_items w)"
  shows "addToWishlist w u p
     = (Inl (PostgrestError unique_violation),
        console_error ''Error adding to wishlist:'' (w\<lparr>faults := tl (faults w)\<rparr>))"
proof -
  have "\<exists>r \<in> set (tbl_wishlist_items w). wi_user_id r = u \<and> wi_product_id r = p"
    using assms(3) by (auto simp: wish_key_def)
  then show ?thesis
    using assms(2)
    by (simp add: addToWishlist_def insert_wishlist_items_def next_request_ok(1) [OF assms(1)]
        owns_def)
qed

lemma addToWishlist_absent:
  assumes "no_faults (Suc n) w" "user w = Some u" "(u, p) \<notin> wish_key ` set (tbl_wishlist_items w)"
    "product_exists w p"
  shows "addToWishlist w u p
     = (Inr (),
        w\<lparr>faults := tl (faults w),
          tbl_wishlist_items := tbl_wishlist_items w @
            [\<lparr>wi_id = next_uuid w, wi_user_id = u, wi_product_id = p\<rparr>],
          next_uuid := Suc (next_uuid w)\<rparr>)"
proof -
  have "\<not> (\<exists>r \<in> set (tbl_wishlist_items w). wi_user_id r = u \<and> wi_product_id r = p)"
    using assms(3) by (auto simp: wish_key_def image_iff)
  then show ?thesis
    using assms(2,4)
    by (simp add: addToWishlist_def insert_wishlist_items_def next_request_ok(1) [OF assms(1)]
        owns_def product_exists_def)
qed

lemma addToWishlist_once:
  assumes nf: "no_faults (Suc n) w" and usr: "user w = Some u"
    and uniq: "distinct (map wish_key (tbl_wishlist_items w))"
    and prod: "product_exists w p"
  shows "no_faults n (snd (addToWishlist w u p))"
    and "user (snd (addToWishlist w u p)) = Some u"
    and "distinct (map wish_key (tbl_wishlist_items (snd (addToWishlist w u p))))"
    and "(u, p) \<in> wish_key ` set (tbl_wishlist_items (snd (addToWishlist w u p)))"
proof -
  note nr = next_request_ok(2) [OF nf]
  have all: "no_faults n (snd (addToWishlist w u p))
    \<and> user (snd (addToWishlist w u p)) = Some u
    \<and> distinct (map wish_key (tbl_wishlist_items (snd (addToWishlist w u p))))
    \<and> (u, p) \<in> wish_key ` set (tbl_wishlist_items (snd (addToWishlist w u p)))"
  proof (cases "(u, p) \<in> wish_key ` set (tbl_wishlist_items w)")
    case True
    show ?thesis
      using nr usr uniq True
      by (simp add: addToWishlist_present [OF nf usr True] console_error_def no_faults_def)
  next
    case False
    show ?thesis
      using nr usr uniq False
      by (simp add: addToWishlist_absent [OF nf usr False prod] no_faults_def wish_key_def)
  qed
  then show "no_faults n (snd (addToWishlist w u p))"
    and "user (snd (addToWishlist w u p)) = Some u"
    and "distinct (map wish_key (tbl_wishlist_items (snd (addToWishlist w u p))))"
    and "(u, p) \<in> wish_key ` set (tbl_wishlist_items (snd (addToWishlist w u p)))"
    by simp_all
qed

lemma addToWishlist_keys:
  assumes "distinct (map wish_key (tbl_wishlist_items w))"
  shows "distinct (map wish_key (tbl_wishlist_items (snd (addToWishlist w u p))))"
  using assms
  by (auto simp: addToWishlist_def insert_wishlist_items_def split_beta next_request_def
      wish_key_def image_iff console_error_def)

text \<open>
  Claim C7. With \<^verbatim>\<open>UNIQUE(user_id, product_id)\<close> holding, the user signed in, the product
  in the catalogue and both requests arriving, two calls of \<^verbatim>\<open>addToWishlist(u, p)\<close> leave
  exactly one entry for \<open>(u, p)\<close>: the second call changes no entry (the store rejects
  the duplicate insert and the call throws that error, a \<^verbatim>\<open>ConflictError\<close>). Whatever
  happens to the requests, no call leaves a duplicate.
\<close>

theorem addToWishlist_twice:
  assumes uniq: "distinct (map wish_key (tbl_wishlist_items w))"
  shows "distinct (map wish_key
           (tbl_wishlist_items (snd (addToWishlist (snd (addToWishlist w u p)) u p))))
    \<and> (user w = Some u \<and> product_exists w p \<and> no_faults 2 w \<longrightarrow>
          length (filter (\<lambda>r. wish_key r = (u, p))
            (tbl_wishlist_items (snd (addToWishlist (snd (addToWishlist w u p)) u p)))) = 1
          \<and> tbl_wishlist_items (snd (addToWishlist (snd (addToWishlist w u p)) u p))
              = tbl_wishlist_items (snd (addToWishlist w u p))
          \<and> fst (addToWishlist (snd (addToWishlist w u p)) u p)
              = Inl (PostgrestError unique_violation)
          \<and> kind_of (PostgrestError unique_violation) = Some ConflictError)"
proof (intro conjI impI)
  show "distinct (map wish_key
           (tbl_wishlist_items (snd (addToWishlist (snd (addToWishlist w u p)) u p))))"
    by (intro addToWishlist_keys uniq)
next
  let ?w1 = "snd (addToWishlist w u p)"
  assume h: "user w = Some u \<and> product_exists w p \<and> no_faults 2 w"
  then have nf: "no_faults (Suc (Suc 0)) w" by (simp add: numeral_2_eq_2)
  from h have usr: "user w = Some u" and prod: "product_exists w p" by simp_all
  note one = addToWishlist_once [OF nf usr uniq prod]
  note two = addToWishlist_present [OF one(1) one(2) one(4)]
  show t: "tbl_wishlist_items (snd (addToWishlist ?w1 u p)) = tbl_wishlist_items ?w1"
    by (simp add: two)
  show "fst (addToWishlist ?w1 u p) = Inl (PostgrestError unique_violation)"
    by (simp add: two)
  show "kind_of (PostgrestError unique_violation) = Some ConflictError"
    by (simp add: kind_of_def)
  from one(4) obtain r where r: "r \<in> set (tbl_wishlist_items ?w1)" "wish_key r = (u, p)"
    by auto
  from one_by_key [OF one(3) r(1)] r(2)
  show "length (filter (\<lambda>r. wish_key r = (u, p)) (tbl_wishlist_items (snd (addToWishlist ?w1 u p)))) = 1"
    unfolding t by simp
qed

theorem addToWishlist_twice_witness:
  "user shop = Some shopper \<and> product_exists shop 2 \<and> no_faults 2 shop
   \<and> tbl_wishlist_items (snd (addToWishlist (snd (addToWishlist shop shopper 2)) shopper 2))
       = [\<lparr>wi_id = 100, wi_user_id = shopper, wi_product_id = 2\<rparr>]
   \<and> fst (addToWishlist (snd (addToWishlist shop shopper 2)) shopper 2)
       = Inl (PostgrestError unique_violation)"
proof -
  have h: "distinct (map wish_key (tbl_wishlist_items shop))" by code_simp
  have g: "user shop = Some shopper \<and> product_exists shop 2 \<and> no_faults 2 shop" by code_simp
  have e: "tbl_wishlist_items (snd (addToWishlist shop shopper 2))
      = [\<lparr>wi_id = 100, wi_user_id = shopper, wi_product_id = 2\<rparr>]"
    by code_simp
  from addToWishlist_twice [OF h, of shopper 2, THEN conjunct2, THEN mp, OF g] g e
  show ?thesis by simp
qed


section \<open>The catalogue\<close>

lemma like_literal:
  "\<not> wild c \<Longrightarrow> like (c # q) t = (case t of [] \<Rightarrow> False | x # t' \<Rightarrow> x = c \<and> like q t')"
  by (simp add: wild_def)

lemma like_plain_prefix:
  "\<forall>c \<in> set s. \<not> wild c \<Longrightarrow> like (s @ q) t \<longleftrightarrow> (\<exists>t'. t = s @ t' \<and> like q t')"
proof (induction s arbitrary: t)
  case Nil
  then show ?case by simp
next
  case (Cons c s)
  then have c: "\<not> wild c" and s: "\<forall>c \<in> set s. \<not> wild c" by simp_all
  show ?case
    by (cases t) (auto simp: like_literal [OF c] Cons.IH [OF s] simp del: like.simps)
qed

lemma like_percent:
  "like (CHR ''%'' # q) t \<longleftrightarrow> (\<exists>a b. t = a @ b \<and> like q b)"
proof (induction t)
  case Nil
  then show ?case by simp
next
  case (Cons x t)
  have "like (CHR ''%'' # q) (x # t) \<longleftrightarrow> like q (x # t) \<or> like (CHR ''%'' # q) t"
    by simp
  also have "\<dots> \<longleftrightarrow> like q (x # t) \<or> (\<exists>a b. t = a @ b \<and> like q b)"
    by (simp only: Cons.IH)
  also have "\<dots> \<longleftrightarrow> (\<exists>a b. x # t = a @ b \<and> like q b)"
  proof
    assume "like q (x # t) \<or> (\<exists>a b. t = a @ b \<and> like q b)"
    then show "\<exists>a b. x # t = a @ b \<and> like q b"
    proof
      assume "like q (x # t)"
      then have "x # t = [] @ (x # t) \<and> like q (x # t)" by simp
      then show ?thesis by blast
    next
      assume "\<exists>a b. t = a @ b \<and> like q b"
      then obtain a b where "t = a @ b" "like q b" by blast
      then have "x # t = (x # a) @ b \<and> like q b" by simp
      then show ?thesis by blast
    qed
  next
    assume "\<exists>a b. x # t = a @ b \<and> like q b"
    then obtain a b where ab: "x # t = a @ b" "like q b" by blast
    show "like q (x # t) \<or> (\<exists>a b. t = a @ b \<and> like q b)"
    proof (cases a)
      case Nil
      with ab show ?thesis by simp
    next
      case (Cons y a')
      with ab have "t = a' @ b" by simp
      with ab(2) show ?thesis by blast
    qed
  qed
  finally show ?case .
qed

lemma like_percent_last: "like [CHR ''%''] t"
  unfolding like_percent by simp

lemma like_substring:
  assumes "\<forall>c \<in> set s. \<not> wild c"
  shows "like (CHR ''%'' # s @ [CHR ''%'']) t \<longleftrightarrow> sublist s t"
proof -
  have "like (CHR ''%'' # s @ [CHR ''%'']) t \<longleftrightarrow> (\<exists>a b. t = a @ b \<and> like (s @ [CHR ''%'']) b)"
    by (rule like_percent)
  also have "\<dots> \<longleftrightarrow> (\<exists>a b. t = a @ b \<and> (\<exists>t'. b = s @ t'))"
    by (simp only: like_plain_prefix [OF assms] like_percent_last simp_thms)
  also have "\<dots> \<longleftrightarrow> sublist s t"
    by (auto simp: sublist_def)
  finally show ?thesis .
qed

lemma lower_code:
  "(of_char (lower c) :: nat)
     = (if 65 \<le> (of_char c :: nat) \<and> (of_char c :: nat) \<le> 90 then of_char c + 32 else of_char c)"
  by (simp add: lower_def Let_def)

lemma wild_code: "wild c \<longleftrightarrow> (of_char c :: nat) \<in> {37, 95, 92}"
proof -
  have "(of_char c :: nat) = of_char CHR ''%'' \<longleftrightarrow> c = CHR ''%''"
    "(of_char c :: nat) = of_char CHR ''_'' \<longleftrightarrow> c = CHR ''_''"
    "(of_char c :: nat) = of_char CHR 0x5C \<longleftrightarrow> c = CHR 0x5C"
    by (rule of_char_eq_iff)+
  moreover have "(of_char CHR ''%'' :: nat) = 37" "(of_char CHR ''_'' :: nat) = 95"
    "(of_char CHR 0x5C :: nat) = 92"
    by simp_all
  ultimately show ?thesis by (simp add: wild_def)
qed

lemma wild_lower: "wild (lower c) \<longleftrightarrow> wild c"
  unfolding wild_code lower_code by auto

lemma lower_percent: "lower CHR ''%'' = CHR ''%''"
  by (simp add: lower_def)

lemma plain_pattern:
  assumes "plain s"
  shows "map lower (map star (''%'' @ s @ ''%'')) = CHR ''%'' # map lower s @ [CHR ''%'']"
    and "\<forall>c \<in> set (map lower s). \<not> wild c"
proof -
  have "map star s = s"
    using assms by (intro map_idI) (simp add: plain_def star_def)
  then show "map lower (map star (''%'' @ s @ ''%'')) = CHR ''%'' # map lower s @ [CHR ''%'']"
    by (simp add: star_def lower_percent)
  have "\<forall>c \<in> set s. \<not> wild c"
    using assms by (simp add: plain_def wild_def)
  then show "\<forall>c \<in> set (map lower s). \<not> wild c"
    by (simp add: wild_lower)
qed

lemma ilike_plain:
  assumes "plain s"
  shows "ilike (''%'' @ s @ ''%'') txt \<longleftrightarrow> contains_ci txt s"
  unfolding ilike_def contains_ci_def plain_pattern(1) [OF assms]
  by (rule like_substring [OF plain_pattern(2) [OF assms]])


lemma matches_plain:
  assumes "\<forall>s. search f = Some s \<longrightarrow> plain s"
  shows "matches f p \<longleftrightarrow>
     pr_is_active p
     \<and> (\<forall>c. category f = Some c \<longrightarrow> pr_category_id p = c)
     \<and> (\<forall>lo. minPrice f = Some lo \<longrightarrow> lo \<le> pr_price p)
     \<and> (\<forall>hi. maxPrice f = Some hi \<longrightarrow> pr_price p \<le> hi)
     \<and> (\<forall>s. search f = Some s \<and> s \<noteq> [] \<longrightarrow>
           contains_ci (pr_name p) s \<or> contains_ci (pr_description p) s)"
proof (cases "search f")
  case None
  then show ?thesis by (auto simp: matches_def split: option.splits)
next
  case (Some s)
  with assms have "plain s" by simp
  note il = ilike_plain [OF this]
  show ?thesis
    unfolding matches_def Some option.case il
    by (auto split: option.splits)
qed

lemma set_newest_first [simp]: "set (newest_first ps) = set ps"
  by (simp add: newest_first_def)

text \<open>
  Claim C8, as amended. Every catalogue query (\<^verbatim>\<open>getProducts\<close>, \<^verbatim>\<open>getProductById\<close>,
  \<^verbatim>\<open>getFeaturedProducts\<close>) returns active products only, whatever the filters. When the
  request arrives and the search term, if any, holds no character that a pattern or the
  filter syntax reads specially, \<^verbatim>\<open>getProducts\<close> returns exactly the active products
  whose category is the one given, whose price lies within the bounds given, and whose
  name or description contains the non-empty term given, letter case ignored.
\<close>

theorem catalog_filters:
  "(\<forall>ps. fst (getProducts w f) = Inr ps \<longrightarrow> (\<forall>p \<in> set ps. pr_is_active p))
   \<and> (\<forall>p. fst (getProductById w i) = Some p \<longrightarrow> pr_is_active p \<and> pr_id p = i)
   \<and> (\<forall>ps. fst (getFeaturedProducts w n) = Inr ps \<longrightarrow> (\<forall>p \<in> set ps. pr_is_active p))
   \<and> (no_faults 1 w \<and> (\<forall>s. search f = Some s \<longrightarrow> plain s) \<longrightarrow>
        (\<exists>ps. fst (getProducts w f) = Inr ps
           \<and> set ps =
               {p \<in> set (tbl_products w).
                  pr_is_active p
                  \<and> (\<forall>c. category f = Some c \<longrightarrow> pr_category_id p = c)
                  \<and> (\<forall>lo. minPrice f = Some lo \<longrightarrow> lo \<le> pr_price p)
                  \<and> (\<forall>hi. maxPrice f = Some hi \<longrightarrow> pr_price p \<le> hi)
                  \<and> (\<forall>s. search f = Some s \<and> s \<noteq> [] \<longrightarrow>
                        contains_ci (pr_name p) s \<or> contains_ci (pr_description p) s)}))"
proof (intro conjI allI impI)
  fix ps assume "fst (getProducts w f) = Inr ps"
  then have "set ps \<subseteq> {p \<in> set (tbl_products w). matches f p}"
    by (auto simp: getProducts_def split_beta split: if_splits)
  then show "\<forall>p \<in> set ps. pr_is_active p"
    by (auto simp: matches_def)
next
  fix p assume g: "fst (getProductById w i) = Some p"
  then have "filter (\<lambda>p. pr_id p = i \<and> pr_is_active p) (tbl_products (snd (next_request w))) = [p]"
    by (auto simp: getProductById_def split_beta split: if_splits list.splits)
  then have "p \<in> set (filter (\<lambda>p. pr_id p = i \<and> pr_is_active p) (tbl_products (snd (next_request w))))"
    by simp
  then show "pr_is_active p" "pr_id p = i" by simp_all
next
  fix ps assume "fst (getFeaturedProducts w n) = Inr ps"
  then have "ps = take n (newest_first (filter pr_is_active (tbl_products (snd (next_request w)))))"
    by (auto simp: getFeaturedProducts_def split_beta split: if_splits)
  then show "\<forall>p \<in> set ps. pr_is_active p"
    by (auto dest: in_set_takeD)
next
  assume h: "no_faults 1 w \<and> (\<forall>s. search f = Some s \<longrightarrow> plain s)"
  then have nf: "no_faults (Suc 0) w" and pl: "\<forall>s. search f = Some s \<longrightarrow> plain s" by simp_all
  have g: "fst (getProducts w f) = Inr (newest_first (filter (matches f) (tbl_products w)))"
    by (simp add: getProducts_def next_request_ok(1) [OF nf])
  have "set (newest_first (filter (matches f) (tbl_products w)))
      = {p \<in> set (tbl_products w).
                  pr_is_active p
                  \<and> (\<forall>c. category f = Some c \<longrightarrow> pr_category_id p = c)
                  \<and> (\<forall>lo. minPrice f = Some lo \<longrightarrow> lo \<le> pr_price p)
                  \<and> (\<forall>hi. maxPrice f = Some hi \<longrightarrow> pr_price p \<le> hi)
                  \<and> (\<forall>s. search f = Some s \<and> s \<noteq> [] \<longrightarrow>
                        contains_ci (pr_name p) s \<or> contains_ci (pr_description p) s)}"
    unfolding set_newest_first set_filter matches_plain [OF pl] ..
  with g show "\<exists>ps. fst (getProducts w f) = Inr ps
           \<and> set ps =
               {p \<in> set (tbl_products w).
                  pr_is_active p
                  \<and> (\<forall>c. category f = Some c \<longrightarrow> pr_category_id p = c)
                  \<and> (\<forall>lo. minPrice f = Some lo \<longrightarrow> lo \<le> pr_price p)
                  \<and> (\<forall>hi. maxPrice f = Some hi \<longrightarrow> pr_price p \<le> hi)
                  \<and> (\<forall>s. search f = Some s \<and> s \<noteq> [] \<longrightarrow>
                        contains_ci (pr_name p) s \<or> contains_ci (pr_description p) s)}"
    by blast
qed

theorem catalog_filters_counterexample:
  "fst (getProducts shop \<lparr>category = None, minPrice = None, maxPrice = None, search = Some ''_''\<rparr>)
     = Inr [tshirt, headphones]
   \<and> \<not> contains_ci (pr_name headphones) ''_''
   \<and> \<not> contains_ci (pr_description headphones) ''_''"
  by code_simp

theorem catalog_filters_witness:
  "no_faults 1 shop \<and> plain ''HEAD''
   \<and> fst (getProducts shop
        \<lparr>category = Some 11, minPrice = Some 100, maxPrice = Some 300, search = Some ''HEAD''\<rparr>)
       = Inr [headphones]
   \<and> pr_is_active headphones
   \<and> (contains_ci (pr_name headphones) ''HEAD'' \<or> contains_ci (pr_description headphones) ''HEAD'')"
proof -
  let ?f = "\<lparr>category = Some 11, minPrice = Some 100, maxPrice = Some 300, search = Some ''HEAD''\<rparr>"
  have e: "fst (getProducts shop ?f) = Inr [headphones]" by code_simp
  have h1: "no_faults 1 shop" "plain ''HEAD''" by code_simp+
  then have h: "no_faults 1 shop \<and> (\<forall>s. search ?f = Some s \<longrightarrow> plain s)" by simp
  note t = catalog_filters [of shop ?f 0 0]
  from t e have a: "pr_is_active headphones" by simp
  from t h obtain ps where ps: "fst (getProducts shop ?f) = Inr ps"
    "set ps = {p \<in> set (tbl_products shop).
                  pr_is_active p
                  \<and> (\<forall>c. category ?f = Some c \<longrightarrow> pr_category_id p = c)
                  \<and> (\<forall>lo. minPrice ?f = Some lo \<longrightarrow> lo \<le> pr_price p)
                  \<and> (\<forall>hi. maxPrice ?f = Some hi \<longrightarrow> pr_price p \<le> hi)
                  \<and> (\<forall>s. search ?f = Some s \<and> s \<noteq> [] \<longrightarrow>
                        contains_ci (pr_name p) s \<or> contains_ci (pr_description p) s)}"
    by blast
  from ps(1) e have "ps = [headphones]" by simp
  then have "headphones \<in> set ps" by simp
  then have "headphones \<in> {p \<in> set (tbl_products shop).
                  pr_is_active p
                  \<and> (\<forall>c. category ?f = Some c \<longrightarrow> pr_category_id p = c)
                  \<and> (\<forall>lo. minPrice ?f = Some lo \<longrightarrow> lo \<le> pr_price p)
                  \<and> (\<forall>hi. maxPrice ?f = Some hi \<longrightarrow> pr_price p \<le> hi)
                  \<and> (\<forall>s. search ?f = Some s \<and> s \<noteq> [] \<longrightarrow>
                        contains_ci (pr_name p) s \<or> contains_ci (pr_description p) s)}"
    by (simp only: ps(2))
  then have c: "contains_ci (pr_name headphones) ''HEAD'' \<or> contains_ci (pr_description headphones) ''HEAD''"
    by simp
  from h1 e a c show ?thesis by simp
qed

end
